theory Spec2Isabelle
  imports Complex_Main
begin

section \<open>Stimulus generator: a shallow embedding of stimulus-generator.js\<close>

text \<open>
  The embedding follows the three classes of the source file: \<open>SeededRandom\<close>,
  \<open>StimulusGenerator\<close> and \<open>StimulusHelpers\<close>. Mutation of \<open>this.current\<close> and of the
  local variables of the generation loop is explicit state passing: every function that
  draws from the random stream takes the stream and returns it updated.

  JavaScript Numbers are modelled as follows. The state of the linear congruential
  generator is an \<open>int\<close>: for a state below \<open>2^32\<close> every intermediate value of the
  recurrence is an integer below \<open>2^53\<close>, where binary64 arithmetic is exact (lemma
  \<open>random_exact_range\<close>). The hazard of the HD condition and the scoring function are
  computed in binary64: every operation rounds its exact result to the nearest binary64
  value, ties to even (\<open>round64\<close>), and a result of magnitude \<open>2^1024\<close> or more is an
  infinity (\<open>fl\<close>). The states and observations of the sampling functions and the
  statistics of the coverage analysis are exact reals, with \<open>Math.sqrt\<close> as \<open>sqrt\<close>; the
  coverage analysis has \<open>Infinity\<close> and \<open>NaN\<close> for the empty sequence. A decimal literal
  stands for the real it names: a draw, which is a multiple of \<open>2^-32\<close>, compares with 0.1,
  0.2 and 0.3 as it does with their binary64 values (lemma \<open>draw_against_literal\<close>), and
  0.5 and 0.25 are binary64 values.
\<close>

subsection \<open>SeededRandom\<close>

record SeededRandom =
  seed :: int
  current :: int

definition new_SeededRandom :: "int \<Rightarrow> SeededRandom" where
  "new_SeededRandom sd = \<lparr>seed = sd, current = sd\<rparr>"

definition setSeed :: "int \<Rightarrow> SeededRandom \<Rightarrow> SeededRandom" where
  "setSeed sd r = r\<lparr>seed := sd, current := sd\<rparr>"

text \<open>The remainder operator \<open>%\<close> of JavaScript truncates: the result has the sign of the
  dividend. The state is an integer of magnitude below \<open>2^32\<close>, for which product, sum,
  remainder and quotient are exact in binary64; \<open>random\<close> keeps the magnitude below \<open>2^32\<close>,
  and a seed of larger magnitude or a seed that is not an integer is outside the model.\<close>

definition js_rem :: "int \<Rightarrow> int \<Rightarrow> int" where
  "js_rem a b = sgn a * (\<bar>a\<bar> mod \<bar>b\<bar>)"

definition random :: "SeededRandom \<Rightarrow> real \<times> SeededRandom" where
  "random r =
     (let c = js_rem (current r * 1664525 + 1013904223) (2 ^ 32)
      in (real_of_int c / 2 ^ 32, r\<lparr>current := c\<rparr>))"

text \<open>The stream after \<open>n\<close> calls of \<open>random\<close>, and the value the \<open>n\<close>-th further call
  returns.\<close>

fun random_calls :: "nat \<Rightarrow> SeededRandom \<Rightarrow> SeededRandom" where
  "random_calls 0 r = r"
| "random_calls (Suc n) r = random_calls n (snd (random r))"

definition random_value :: "nat \<Rightarrow> SeededRandom \<Rightarrow> real" where
  "random_value n r = fst (random (random_calls n r))"

definition valid_stream :: "SeededRandom \<Rightarrow> bool" where
  "valid_stream r = (0 \<le> current r \<and> current r < 2 ^ 32)"

subsection \<open>Binary64 arithmetic\<close>

text \<open>
  A Number is a finite value, \<open>Infinity\<close>, \<open>-Infinity\<close> or \<open>NaN\<close>. A finite binary64 value
  is an integer multiple of \<open>2^(e - 52)\<close> for its exponent \<open>e\<close>, which is at least
  \<open>-1022\<close>; \<open>round64\<close> rounds a real to the nearest such value of its binade, the even
  multiple on a tie (\<open>rne\<close>), and \<open>fl\<close> is the result of an arithmetic operation whose
  exact value is the given real. Zero has no sign here.
\<close>

datatype jsnum = Num real | PosInfinity | NegInfinity | NaN

definition rne :: "real \<Rightarrow> int" where
  "rne m =
     (let f = \<lfloor>m\<rfloor>; d = m - of_int f
      in if d < 1 / 2 then f
         else if 1 / 2 < d then f + 1
         else if even f then f else f + 1)"

definition exponent64 :: "real \<Rightarrow> int" where
  "exponent64 x = max \<lfloor>log 2 \<bar>x\<bar>\<rfloor> (- 1022)"

definition ulp64 :: "real \<Rightarrow> real" where
  "ulp64 x = 2 powr of_int (exponent64 x - 52)"

definition round64 :: "real \<Rightarrow> real" where
  "round64 x = (if x = 0 then 0 else of_int (rne (x / ulp64 x)) * ulp64 x)"


definition overflow_threshold :: real where
  "overflow_threshold = 2 ^ 1024"

definition fl :: "real \<Rightarrow> jsnum" where
  "fl x =
     (let y = round64 x
      in if overflow_threshold \<le> y then PosInfinity
         else if y \<le> - overflow_threshold then NegInfinity
         else Num y)"





subsection \<open>StimulusGenerator: parameters and constructor\<close>

text \<open>The experiment parameters are assigned once in the constructor and never written
  again; they are constants here. The fields that differ between instances or change
  over time form the record.\<close>

definition STATE_RANGE :: real where
  "STATE_RANGE = 300"

definition LIKELIHOOD_HALF_WIDTH :: real where
  "LIKELIHOOD_HALF_WIDTH = 20"

definition CHANGE_SIZE_HALF_WIDTH :: real where
  "CHANGE_SIZE_HALF_WIDTH = 40"

definition CHANGE_SEPARATION :: real where
  "CHANGE_SEPARATION = 15"

definition TUTORIAL_TRIALS :: "int list" where
  "TUTORIAL_TRIALS = [10, 10, 15, 15, 20]"

record StimulusGenerator =
  MAIN_TRIALS :: int
  rngSeed :: int
  rng :: SeededRandom

definition new_StimulusGenerator :: "int \<Rightarrow> StimulusGenerator" where
  "new_StimulusGenerator trialCount =
     \<lparr>MAIN_TRIALS = trialCount, rngSeed = 12345, rng = new_SeededRandom 12345\<rparr>"

text \<open>The constructor called without an argument.\<close>

definition new_StimulusGenerator_default :: StimulusGenerator where
  "new_StimulusGenerator_default = new_StimulusGenerator 1000"

subsection \<open>Sampling primitives\<close>

definition sampleTriangular :: "real \<Rightarrow> real \<Rightarrow> SeededRandom \<Rightarrow> real \<times> SeededRandom" where
  "sampleTriangular center halfWidth r =
     (let (u, r') = random r;
          sample = (if u < 0.5
                    then center - halfWidth + halfWidth * sqrt (2 * u)
                    else center + halfWidth - halfWidth * sqrt (2 * (1 - u)))
      in (max 0 (min STATE_RANGE sample), r'))"

definition sampleBimodalTransition :: "real \<Rightarrow> SeededRandom \<Rightarrow> real \<times> SeededRandom" where
  "sampleBimodalTransition cs r =
     (let largeJumpProbability = 0.2;
          (j, r1) = random r
      in if j < largeJumpProbability
         then (let targetCenter = STATE_RANGE / 2;
                   largeJumpWidth = STATE_RANGE / 3
               in sampleTriangular targetCenter largeJumpWidth r1)
         else (let leftCenter = cs - CHANGE_SEPARATION;
                   rightCenter = cs + CHANGE_SEPARATION;
                   (l, r2) = random r1;
                   useLeftLobe = (l < 0.5);
                   center = (if useLeftLobe then leftCenter else rightCenter)
               in sampleTriangular center CHANGE_SIZE_HALF_WIDTH r2))"

subsection \<open>Hazard of the HD condition\<close>

text \<open>
  \<open>Math.exp\<close> is taken as the exponential rounded to binary64; the language leaves its
  last bits to the implementation. In \<open>calculateHDHazard\<close> the difference \<open>tau - 10\<close> and
  the sum \<open>1 + y\<close> of a finite \<open>y\<close> do not overflow, and the quotient is at most 1; when
  \<open>Math.exp\<close> returns \<open>Infinity\<close> the sum is \<open>Infinity\<close> and the quotient is 0. \<open>Math.exp\<close>
  returns neither \<open>-Infinity\<close> nor \<open>NaN\<close> on a finite argument.
\<close>

definition Math_exp :: "real \<Rightarrow> jsnum" where
  "Math_exp x = fl (exp x)"

definition calculateHDHazard :: "real \<Rightarrow> real" where
  "calculateHDHazard t =
     (case Math_exp (- round64 (t - 10)) of
        Num y \<Rightarrow> round64 (1 / round64 (1 + y))
      | _ \<Rightarrow> 0)"



subsection \<open>Sequence generation\<close>

record trial =
  trial_idx :: nat
  condition :: string
  tau_true :: nat
  change_flag :: bool
  s_t :: real
  x_t :: real
  hazard_rate :: real
  tutorial_phase :: "nat option"
  is_tutorial :: bool
  likelihood_width :: real

text \<open>The variables the loop of \<open>generateSequence\<close> updates: the random stream
  \<open>this.rng\<close>, \<open>currentState\<close>, \<open>tau\<close> and the array \<open>trials\<close>.\<close>

record loop_state =
  ls_rng :: SeededRandom
  ls_currentState :: real
  ls_tau :: nat
  ls_trials :: "trial list"

text \<open>Lines 121 to 133: the targeted exploration move, taken from the state before the
  change.\<close>

definition exploration_move :: "real \<Rightarrow> SeededRandom \<Rightarrow> real \<times> SeededRandom" where
  "exploration_move cs r =
     (if cs < STATE_RANGE * 0.3
      then sampleTriangular (STATE_RANGE * 0.7) (STATE_RANGE * 0.2) r
      else if cs > STATE_RANGE * 0.7
      then sampleTriangular (STATE_RANGE * 0.3) (STATE_RANGE * 0.2) r
      else (let (b, r') = random r;
                exploreBoundary = (b < 0.5)
            in if exploreBoundary
               then sampleTriangular (STATE_RANGE * 0.15) (STATE_RANGE * 0.1) r'
               else sampleTriangular (STATE_RANGE * 0.85) (STATE_RANGE * 0.1) r'))"

text \<open>Lines 113 to 144: the change decision. The result is \<open>changeFlag\<close>, the new
  \<open>currentState\<close>, the new \<open>tau\<close> and the stream.\<close>

definition change_step ::
  "bool \<Rightarrow> nat \<Rightarrow> real \<Rightarrow> real \<Rightarrow> nat \<Rightarrow> SeededRandom
     \<Rightarrow> bool \<times> real \<times> nat \<times> SeededRandom" where
  "change_step isTutorial t hazard cs ta r =
     (let (u, r1) = random r
      in if u < hazard
         then (if isTutorial \<or> (t > 0 \<and> t mod 50 = 0)
               then (let explorationProb = 0.3;
                         (e, r2) = random r1
                     in if e < explorationProb
                        then (let (s, r3) = exploration_move cs r2 in (True, s, 0, r3))
                        else (let (s, r3) = sampleBimodalTransition cs r2 in (True, s, 0, r3)))
               else (let (s, r3) = sampleBimodalTransition cs r1 in (True, s, 0, r3)))
         else (False, cs, ta + 1, r1))"

text \<open>Lines 102 to 168: one iteration of the loop, for trial index \<open>t\<close>.\<close>

definition generateSequence_body ::
  "string \<Rightarrow> bool \<Rightarrow> nat option \<Rightarrow> nat \<Rightarrow> loop_state \<Rightarrow> loop_state" where
  "generateSequence_body cond isTutorial tutorialPhase t st =
     (let hazard = (if cond = ''HI'' then 0.1
                    else calculateHDHazard (real (ls_tau st)));
          (changeFlag, cs, ta, r1) =
             change_step isTutorial t hazard (ls_currentState st) (ls_tau st) (ls_rng st);
          likelihoodWidth =
             (if isTutorial \<and> (tutorialPhase = Some 3 \<or> tutorialPhase = Some 4)
              then LIKELIHOOD_HALF_WIDTH * 0.5 else LIKELIHOOD_HALF_WIDTH);
          (observation, r2) = sampleTriangular cs likelihoodWidth r1
      in \<lparr>ls_rng = r2, ls_currentState = cs, ls_tau = ta,
          ls_trials = ls_trials st @
            [\<lparr>trial_idx = t, condition = cond, tau_true = ta, change_flag = changeFlag,
              s_t = cs, x_t = observation, hazard_rate = hazard,
              tutorial_phase = tutorialPhase, is_tutorial = isTutorial,
              likelihood_width = likelihoodWidth\<rparr>]\<rparr>)"

function generateSequence_loop ::
  "string \<Rightarrow> int \<Rightarrow> bool \<Rightarrow> nat option \<Rightarrow> nat \<Rightarrow> loop_state \<Rightarrow> loop_state" where
  "generateSequence_loop cond nTrials isTutorial tutorialPhase t st =
     (if int t < nTrials
      then generateSequence_loop cond nTrials isTutorial tutorialPhase (Suc t)
             (generateSequence_body cond isTutorial tutorialPhase t st)
      else st)"
  by pat_completeness auto
termination
  by (relation "measure (\<lambda>(c, n, i, p, t, st). nat (n - int t))") auto

declare generateSequence_loop.simps [simp del]

definition generateSequence ::
  "string \<Rightarrow> int \<Rightarrow> bool \<Rightarrow> nat option \<Rightarrow> StimulusGenerator
     \<Rightarrow> trial list \<times> StimulusGenerator" where
  "generateSequence cond nTrials isTutorial tutorialPhase g =
     (let (u, r) = random (rng g);
          st = generateSequence_loop cond nTrials isTutorial tutorialPhase 0
                 \<lparr>ls_rng = r, ls_currentState = u * STATE_RANGE, ls_tau = 0, ls_trials = []\<rparr>
      in (ls_trials st, g\<lparr>rng := ls_rng st\<rparr>))"

subsection \<open>Session assembly\<close>

function tutorial_loop ::
  "string \<Rightarrow> nat \<Rightarrow> trial list list \<Rightarrow> StimulusGenerator
     \<Rightarrow> trial list list \<times> StimulusGenerator" where
  "tutorial_loop cond phase tutorials g =
     (if phase \<le> 5
      then (let nTrials = TUTORIAL_TRIALS ! (phase - 1);
                (trials, g') = generateSequence cond nTrials True (Some phase) g
            in tutorial_loop cond (Suc phase) (tutorials @ [trials]) g')
      else (tutorials, g))"
  by pat_completeness auto
termination
  by (relation "measure (\<lambda>(c, phase, ts, g). 6 - phase)") auto

declare tutorial_loop.simps [simp del]

definition generateTutorialSequences ::
  "string \<Rightarrow> StimulusGenerator \<Rightarrow> trial list list \<times> StimulusGenerator" where
  "generateTutorialSequences cond g = tutorial_loop cond 1 [] g"

definition generateMainSequence ::
  "string \<Rightarrow> StimulusGenerator \<Rightarrow> trial list \<times> StimulusGenerator" where
  "generateMainSequence cond g = generateSequence cond (MAIN_TRIALS g) False None g"

record condition_sequences =
  tutorials :: "trial list list"
  main :: "trial list"

record 'a per_condition =
  HI :: 'a
  HD :: 'a

definition generateAllSequences ::
  "StimulusGenerator \<Rightarrow> condition_sequences per_condition \<times> StimulusGenerator" where
  "generateAllSequences g =
     (let (hiT, g1) = generateTutorialSequences ''HI'' g;
          (hiM, g2) = generateMainSequence ''HI'' g1;
          (hdT, g3) = generateTutorialSequences ''HD'' g2;
          (hdM, g4) = generateMainSequence ''HD'' g3
      in (\<lparr>HI = \<lparr>tutorials = hiT, main = hiM\<rparr>,
           HD = \<lparr>tutorials = hdT, main = hdM\<rparr>\<rparr>, g4))"

subsection \<open>StimulusHelpers\<close>





subsection \<open>Coverage analysis\<close>

text \<open>
  Subtraction, division and multiplication of the analysis, as IEEE 754 defines them on
  infinities and \<open>NaN\<close> and exact on finite values. Zero is the positive zero: the divisors
  of the analysis are a length and \<open>STATE_RANGE\<close>. \<open>Math_min\<close> and \<open>Math_max\<close> are
  \<open>Math.min(...xs)\<close> and \<open>Math.max(...xs)\<close>, which return \<open>Infinity\<close> and \<open>-Infinity\<close> when
  called without arguments. The states and observations of trials are finite.

  \<open>range_statistics\<close> is the object literal built for \<open>stateRange\<close> and for
  \<open>observationRange\<close>; \<open>analyze_condition\<close> is the body of the loop over the two
  conditions. The field \<open>percentages\<close> holds the Number on which \<open>toFixed(1)\<close> is called;
  the decimal formatting is not modelled.
\<close>

fun js_sub :: "jsnum \<Rightarrow> jsnum \<Rightarrow> jsnum" where
  "js_sub NaN _ = NaN"
| "js_sub _ NaN = NaN"
| "js_sub (Num a) (Num b) = Num (a - b)"
| "js_sub (Num a) PosInfinity = NegInfinity"
| "js_sub (Num a) NegInfinity = PosInfinity"
| "js_sub PosInfinity PosInfinity = NaN"
| "js_sub PosInfinity _ = PosInfinity"
| "js_sub NegInfinity NegInfinity = NaN"
| "js_sub NegInfinity _ = NegInfinity"

fun js_div :: "jsnum \<Rightarrow> jsnum \<Rightarrow> jsnum" where
  "js_div NaN _ = NaN"
| "js_div _ NaN = NaN"
| "js_div (Num a) (Num b) =
     (if b \<noteq> 0 then Num (a / b)
      else if a = 0 then NaN
      else if 0 < a then PosInfinity else NegInfinity)"
| "js_div (Num a) _ = Num 0"
| "js_div PosInfinity (Num b) = (if 0 \<le> b then PosInfinity else NegInfinity)"
| "js_div NegInfinity (Num b) = (if 0 \<le> b then NegInfinity else PosInfinity)"
| "js_div _ _ = NaN"

fun js_mul :: "jsnum \<Rightarrow> jsnum \<Rightarrow> jsnum" where
  "js_mul NaN _ = NaN"
| "js_mul _ NaN = NaN"
| "js_mul (Num a) (Num b) = Num (a * b)"
| "js_mul (Num a) PosInfinity =
     (if a = 0 then NaN else if 0 < a then PosInfinity else NegInfinity)"
| "js_mul (Num a) NegInfinity =
     (if a = 0 then NaN else if 0 < a then NegInfinity else PosInfinity)"
| "js_mul PosInfinity (Num b) =
     (if b = 0 then NaN else if 0 < b then PosInfinity else NegInfinity)"
| "js_mul NegInfinity (Num b) =
     (if b = 0 then NaN else if 0 < b then NegInfinity else PosInfinity)"
| "js_mul PosInfinity PosInfinity = PosInfinity"
| "js_mul NegInfinity NegInfinity = PosInfinity"
| "js_mul _ _ = NegInfinity"

fun Math_min :: "real list \<Rightarrow> jsnum" where
  "Math_min [] = PosInfinity"
| "Math_min (x # xs) = Num (fold min xs x)"

fun Math_max :: "real list \<Rightarrow> jsnum" where
  "Math_max [] = NegInfinity"
| "Math_max (x # xs) = Num (fold max xs x)"

record range_stats =
  min_val :: jsnum
  max_val :: jsnum
  mean :: jsnum
  coverage :: jsnum

record 'a quartiles =
  q1 :: 'a
  q2 :: 'a
  q3 :: 'a
  q4 :: 'a

record quartile_distribution =
  counts :: "nat quartiles"
  percentages :: "jsnum quartiles"

record coverage_report =
  stateRange :: range_stats
  observationRange :: range_stats
  quartileDistribution :: quartile_distribution

definition calculateQuartileDistribution :: "real list \<Rightarrow> quartile_distribution" where
  "calculateQuartileDistribution states =
     (let b1 = STATE_RANGE * 0.25;
          b2 = STATE_RANGE * 0.5;
          b3 = STATE_RANGE * 0.75;
          distribution =
            \<lparr>q1 = length (filter (\<lambda>s. s < b1) states),
             q2 = length (filter (\<lambda>s. s \<ge> b1 \<and> s < b2) states),
             q3 = length (filter (\<lambda>s. s \<ge> b2 \<and> s < b3) states),
             q4 = length (filter (\<lambda>s. s \<ge> b3) states)\<rparr>;
          total = Num (real (length states))
      in \<lparr>counts = distribution,
          percentages =
            \<lparr>q1 = js_mul (js_div (Num (real (q1 distribution))) total) (Num 100),
             q2 = js_mul (js_div (Num (real (q2 distribution))) total) (Num 100),
             q3 = js_mul (js_div (Num (real (q3 distribution))) total) (Num 100),
             q4 = js_mul (js_div (Num (real (q4 distribution))) total) (Num 100)\<rparr>\<rparr>)"

definition range_statistics :: "real list \<Rightarrow> range_stats" where
  "range_statistics xs =
     \<lparr>min_val = Math_min xs,
      max_val = Math_max xs,
      mean = js_div (Num (foldl (+) 0 xs)) (Num (real (length xs))),
      coverage = js_div (js_sub (Math_max xs) (Math_min xs)) (Num STATE_RANGE)\<rparr>"

definition analyze_condition :: "trial list \<Rightarrow> coverage_report" where
  "analyze_condition mainTrials =
     (let states = map s_t mainTrials;
          observations = map x_t mainTrials
      in \<lparr>stateRange = range_statistics states,
          observationRange = range_statistics observations,
          quartileDistribution = calculateQuartileDistribution states\<rparr>)"

definition analyzeStateCoverage ::
  "condition_sequences per_condition \<Rightarrow> coverage_report per_condition" where
  "analyzeStateCoverage sequences =
     \<lparr>HI = analyze_condition (main (HI sequences)),
      HD = analyze_condition (main (HD sequences))\<rparr>"


subsection \<open>Predicates used in the statements\<close>

text \<open>Every sequence of a session, in the order of generation.\<close>

definition all_sequences :: "condition_sequences per_condition \<Rightarrow> trial list list" where
  "all_sequences s = tutorials (HI s) @ [main (HI s)] @ tutorials (HD s) @ [main (HD s)]"

definition in_range :: "trial \<Rightarrow> bool" where
  "in_range tr =
     (0 \<le> s_t tr \<and> s_t tr \<le> STATE_RANGE \<and> 0 \<le> x_t tr \<and> x_t tr \<le> STATE_RANGE)"

definition seqs_in_range :: "trial list list \<Rightarrow> bool" where
  "seqs_in_range tss = (\<forall>ts \<in> set tss. \<forall>tr \<in> set ts. in_range tr)"

definition range_inv :: "loop_state \<Rightarrow> bool" where
  "range_inv st =
     (valid_stream (ls_rng st)
      \<and> 0 \<le> ls_currentState st \<and> ls_currentState st \<le> STATE_RANGE
      \<and> (\<forall>tr \<in> set (ls_trials st). in_range tr))"

text \<open>The relation between the emitted \<open>tau\<close> of a trial, its change flag and the counter
  before the trial; \<open>tau_chain\<close> states it along a sequence.\<close>

definition tau_step :: "nat \<Rightarrow> trial \<Rightarrow> bool" where
  "tau_step prev x = ((change_flag x \<longleftrightarrow> tau_true x = 0)
                      \<and> (\<not> change_flag x \<longrightarrow> tau_true x = prev + 1))"

fun tau_chain :: "nat \<Rightarrow> trial list \<Rightarrow> bool" where
  "tau_chain prev [] = True"
| "tau_chain prev (x # xs) = (tau_step prev x \<and> tau_chain (tau_true x) xs)"

definition last_tau :: "nat \<Rightarrow> trial list \<Rightarrow> nat" where
  "last_tau prev xs = (if xs = [] then prev else tau_true (last xs))"

definition tau_inv :: "loop_state \<Rightarrow> bool" where
  "tau_inv st = (tau_chain 0 (ls_trials st) \<and> ls_tau st = last_tau 0 (ls_trials st))"




text \<open>The report of an empty sequence, and a report of finite values.\<close>

definition is_finite :: "jsnum \<Rightarrow> bool" where
  "is_finite x = (case x of Num _ \<Rightarrow> True | _ \<Rightarrow> False)"

definition degenerate :: "range_stats \<Rightarrow> bool" where
  "degenerate rs = (min_val rs = PosInfinity \<and> max_val rs = NegInfinity \<and> mean rs = NaN)"

definition finite_stats :: "range_stats \<Rightarrow> bool" where
  "finite_stats rs = (is_finite (min_val rs) \<and> is_finite (max_val rs) \<and> is_finite (mean rs))"


text \<open>A generator with other values in the fields \<open>rngSeed\<close> and \<open>seed\<close>, which generation
  never reads.\<close>

definition reseed :: "int \<Rightarrow> int \<Rightarrow> StimulusGenerator \<Rightarrow> StimulusGenerator" where
  "reseed k sd g = g\<lparr>rngSeed := k, rng := (rng g)\<lparr>seed := sd\<rparr>\<rparr>"


subsection \<open>Binary64 rounding\<close>

lemma rne_bounds: "\<lfloor>m\<rfloor> \<le> rne m \<and> rne m \<le> \<lfloor>m\<rfloor> + 1"
  by (simp add: rne_def Let_def)

lemma rne_of_int: "rne (of_int k) = k"
  by (simp add: rne_def Let_def)

lemma rne_mono:
  assumes "a \<le> b"
  shows "rne a \<le> rne b"
proof (cases "\<lfloor>a\<rfloor> = \<lfloor>b\<rfloor>")
  case True
  then show ?thesis using assms by (auto simp add: rne_def Let_def)
next
  case False
  then have "\<lfloor>a\<rfloor> < \<lfloor>b\<rfloor>" using floor_mono [OF assms] by simp
  then have "\<lfloor>a\<rfloor> + 1 \<le> \<lfloor>b\<rfloor>" by simp
  then show ?thesis using rne_bounds [of a] rne_bounds [of b] by linarith
qed

lemma rne_ge: "of_int k \<le> m \<Longrightarrow> k \<le> rne m"
  using rne_mono [of "of_int k" m] by (simp add: rne_of_int)

lemma rne_le: "m \<le> of_int k \<Longrightarrow> rne m \<le> k"
  using rne_mono [of m "of_int k"] by (simp add: rne_of_int)

lemma rne_minus: "rne (- m) = - rne m"
proof (cases "m = of_int \<lfloor>m\<rfloor>")
  case True
  then obtain k where "m = of_int k" by metis
  then have "- m = of_int (- k)" by simp
  then show ?thesis using \<open>m = of_int k\<close> by (simp only: rne_of_int)
next
  case False
  define f where "f = \<lfloor>m\<rfloor>"
  have lo: "of_int f \<le> m" and up: "m < of_int f + 1"
    unfolding f_def by linarith+
  have lt: "of_int f < m" using False lo unfolding f_def by linarith
  have "\<lfloor>- m\<rfloor> = - f - 1"
  proof (rule floor_unique)
    show "of_int (- f - 1) \<le> - m" using up by simp
    show "- m < of_int (- f - 1) + 1" using lt by simp
  qed
  then show ?thesis
    using lt up unfolding rne_def Let_def f_def [symmetric] by auto
qed


lemma ulp64_pos: "0 < ulp64 x"
  by (simp add: ulp64_def)

lemma exponent64_minus: "exponent64 (- x) = exponent64 x"
  by (simp add: exponent64_def)

lemma ulp64_minus: "ulp64 (- x) = ulp64 x"
  by (simp add: ulp64_def exponent64_minus)

lemma round64_minus: "round64 (- x) = - round64 x"
  by (simp add: round64_def ulp64_minus rne_minus)

lemma round64_0: "round64 0 = 0"
  by (simp add: round64_def)

lemma exponent64_eq:
  assumes "2 powr of_int k \<le> \<bar>x\<bar>" and "\<bar>x\<bar> < 2 powr of_int (k + 1)" and "- 1022 \<le> k"
  shows "exponent64 x = k"
proof -
  have "0 < \<bar>x\<bar>" using assms(1) powr_gt_zero [of 2 "of_int k"] by linarith
  then have "\<lfloor>log 2 \<bar>x\<bar>\<rfloor> = k"
    using assms(1,2) by (simp add: floor_log_eq_powr_iff)
  then show ?thesis using assms(3) by (simp add: exponent64_def)
qed

lemma exponent64_lower: "- 1022 \<le> exponent64 x"
  by (simp add: exponent64_def)

lemma abs_less_next_binade:
  assumes "x \<noteq> 0"
  shows "\<bar>x\<bar> < 2 powr of_int (exponent64 x + 1)"
proof -
  have p: "0 < \<bar>x\<bar>" using assms by simp
  have "\<bar>x\<bar> < 2 powr of_int (\<lfloor>log 2 \<bar>x\<bar>\<rfloor> + 1)"
    using p floor_log_eq_powr_iff [of "\<bar>x\<bar>" 2 "\<lfloor>log 2 \<bar>x\<bar>\<rfloor>"] by simp
  also have "\<dots> \<le> 2 powr of_int (exponent64 x + 1)"
    by (simp add: exponent64_def)
  finally show ?thesis .
qed

lemma binade_le_abs:
  assumes "x \<noteq> 0" and "- 1022 < exponent64 x"
  shows "2 powr of_int (exponent64 x) \<le> \<bar>x\<bar>"
proof -
  have p: "0 < \<bar>x\<bar>" using assms(1) by simp
  have e: "exponent64 x = \<lfloor>log 2 \<bar>x\<bar>\<rfloor>"
    using assms(2) by (simp add: exponent64_def max_def split: if_splits)
  show ?thesis
    unfolding e using p floor_log_eq_powr_iff [of "\<bar>x\<bar>" 2 "\<lfloor>log 2 \<bar>x\<bar>\<rfloor>"] by simp
qed

lemma exponent64_mono:
  assumes "0 < x" and "x \<le> y"
  shows "exponent64 x \<le> exponent64 y"
proof -
  have "log 2 \<bar>x\<bar> \<le> log 2 \<bar>y\<bar>" using assms by simp
  then have "\<lfloor>log 2 \<bar>x\<bar>\<rfloor> \<le> \<lfloor>log 2 \<bar>y\<bar>\<rfloor>" by (rule floor_mono)
  then show ?thesis by (simp add: exponent64_def)
qed

lemma round64_nonneg: "0 \<le> x \<Longrightarrow> 0 \<le> round64 x"
proof -
  assume "0 \<le> x"
  then have "of_int 0 \<le> x / ulp64 x" using ulp64_pos [of x] by simp
  then have "0 \<le> rne (x / ulp64 x)" by (rule rne_ge)
  then show ?thesis using ulp64_pos [of x] by (simp add: round64_def)
qed

lemma two_powr_52: "(2::real) powr of_int (e - 52) * 2 ^ 52 = 2 powr of_int e"
proof -
  have "(2::real) powr of_int (e - 52) * 2 powr of_int 52 =
          2 powr (of_int (e - 52) + of_int 52)"
    by (simp only: powr_add)
  moreover have "(2::real) powr of_int 52 = 2 ^ 52" by simp
  moreover have "(of_int (e - 52) + of_int 52 :: real) = of_int e" by simp
  ultimately show ?thesis by (simp only:)
qed

lemma two_powr_53: "(2::real) powr of_int (e - 52) * 2 ^ 53 = 2 powr of_int (e + 1)"
proof -
  have "(2::real) powr of_int (e - 52) * 2 powr of_int 53 =
          2 powr (of_int (e - 52) + of_int 53)"
    by (simp only: powr_add)
  moreover have "(2::real) powr of_int 53 = 2 ^ 53" by simp
  moreover have "(of_int (e - 52) + of_int 53 :: real) = of_int (e + 1)" by simp
  ultimately show ?thesis by (simp only:)
qed

lemma ulp64_times_52: "ulp64 x * 2 ^ 52 = 2 powr of_int (exponent64 x)"
  unfolding ulp64_def by (rule two_powr_52)

lemma ulp64_times_53: "ulp64 x * 2 ^ 53 = 2 powr of_int (exponent64 x + 1)"
  unfolding ulp64_def by (rule two_powr_53)

lemma round64_upper:
  assumes "0 < x"
  shows "round64 x \<le> 2 powr of_int (exponent64 x + 1)"
proof -
  let ?q = "ulp64 x"
  have q: "0 < ?q" by (rule ulp64_pos)
  have "x < 2 powr of_int (exponent64 x + 1)"
    using abs_less_next_binade [of x] assms by simp
  then have "x < ?q * 2 ^ 53" by (simp only: ulp64_times_53)
  then have "x / ?q \<le> 2 ^ 53" using q by (simp add: field_simps)
  then have "x / ?q \<le> of_int (2 ^ 53)" by simp
  then have "rne (x / ?q) \<le> 2 ^ 53" by (rule rne_le)
  then have "real_of_int (rne (x / ?q)) \<le> real_of_int (2 ^ 53)"
    by (simp only: of_int_le_iff)
  then have "real_of_int (rne (x / ?q)) \<le> 2 ^ 53" by simp
  then have "real_of_int (rne (x / ?q)) * ?q \<le> 2 ^ 53 * ?q"
    using q by (simp only: mult_le_cancel_right_pos)
  also have "2 ^ 53 * ?q = ?q * 2 ^ 53" by (simp only: mult.commute)
  also have "\<dots> = 2 powr of_int (exponent64 x + 1)" by (rule ulp64_times_53)
  finally show ?thesis using assms by (simp add: round64_def)
qed

lemma round64_lower:
  assumes "0 < x" and "- 1022 < exponent64 x"
  shows "2 powr of_int (exponent64 x) \<le> round64 x"
proof -
  let ?q = "ulp64 x"
  have q: "0 < ?q" by (rule ulp64_pos)
  have "2 powr of_int (exponent64 x) \<le> x"
    using binade_le_abs [of x] assms by simp
  then have "?q * 2 ^ 52 \<le> x" by (simp only: ulp64_times_52)
  then have "2 ^ 52 \<le> x / ?q" using q by (simp add: field_simps)
  then have "of_int (2 ^ 52) \<le> x / ?q" by simp
  then have "2 ^ 52 \<le> rne (x / ?q)" by (rule rne_ge)
  then have "real_of_int (2 ^ 52) \<le> real_of_int (rne (x / ?q))"
    by (simp only: of_int_le_iff)
  then have "2 ^ 52 \<le> real_of_int (rne (x / ?q))" by simp
  then have "2 ^ 52 * ?q \<le> real_of_int (rne (x / ?q)) * ?q"
    using q by (simp only: mult_le_cancel_right_pos)
  moreover have "2 ^ 52 * ?q = ?q * 2 ^ 52" by (simp only: mult.commute)
  moreover have "?q * 2 ^ 52 = 2 powr of_int (exponent64 x)" by (rule ulp64_times_52)
  ultimately have "2 powr of_int (exponent64 x) \<le> real_of_int (rne (x / ?q)) * ?q"
    by (simp only:)
  then show ?thesis using assms by (simp add: round64_def)
qed

lemma round64_mono_pos:
  assumes "0 < x" and "x \<le> y"
  shows "round64 x \<le> round64 y"
proof (cases "exponent64 x = exponent64 y")
  case True
  then have u: "ulp64 x = ulp64 y" by (simp add: ulp64_def)
  have "x / ulp64 y \<le> y / ulp64 y"
    using assms(2) ulp64_pos [of y] by (simp add: divide_right_mono)
  then have "rne (x / ulp64 y) \<le> rne (y / ulp64 y)" by (rule rne_mono)
  then have "real_of_int (rne (x / ulp64 y)) * ulp64 y \<le> real_of_int (rne (y / ulp64 y)) * ulp64 y"
    using ulp64_pos [of y] by simp
  then show ?thesis using assms by (simp add: round64_def u)
next
  case False
  have y: "0 < y" using assms by linarith
  have "exponent64 x < exponent64 y"
    using False exponent64_mono [OF assms] by simp
  then have a: "exponent64 x + 1 \<le> exponent64 y" and b: "- 1022 < exponent64 y"
    using exponent64_lower [of x] by simp_all
  have "round64 x \<le> 2 powr of_int (exponent64 x + 1)"
    using assms(1) by (rule round64_upper)
  also have "\<dots> \<le> 2 powr of_int (exponent64 y)"
    using a by simp
  also have "\<dots> \<le> round64 y"
    using y b by (rule round64_lower)
  finally show ?thesis .
qed

lemma round64_mono:
  assumes "x \<le> y"
  shows "round64 x \<le> round64 y"
proof -
  consider "0 < x" | "x \<le> 0" "0 \<le> y" | "y < 0" by linarith
  then show ?thesis
  proof cases
    case 1
    then show ?thesis using assms by (rule round64_mono_pos)
  next
    case 2
    have "0 \<le> round64 (- x)" using 2(1) by (intro round64_nonneg) simp
    then have "round64 x \<le> 0" by (simp add: round64_minus)
    moreover have "0 \<le> round64 y" using 2(2) by (rule round64_nonneg)
    ultimately show ?thesis by linarith
  next
    case 3
    then have "round64 (- y) \<le> round64 (- x)"
      using assms by (intro round64_mono_pos) simp_all
    then show ?thesis by (simp add: round64_minus)
  qed
qed



lemma round64_representable:
  assumes "x \<noteq> 0" and "x / ulp64 x = of_int k"
  shows "round64 x = x"
proof -
  have "rne (x / ulp64 x) = k" by (simp only: assms(2) rne_of_int)
  then have "round64 x = of_int k * ulp64 x" using assms(1) by (simp add: round64_def)
  also have "\<dots> = x / ulp64 x * ulp64 x" by (simp only: assms(2))
  also have "\<dots> = x" using ulp64_pos [of x] by simp
  finally show ?thesis .
qed

lemma ulp64_eq:
  assumes "2 powr of_int k \<le> \<bar>x\<bar>" and "\<bar>x\<bar> < 2 powr of_int (k + 1)" and "- 1022 \<le> k"
  shows "ulp64 x = 2 powr of_int (k - 52)"
  by (simp only: ulp64_def exponent64_eq [OF assms])

lemma round64_pow2:
  assumes "- 1022 \<le> k"
  shows "round64 (2 powr of_int k) = 2 powr of_int k"
proof -
  let ?x = "(2::real) powr of_int k"
  have u: "ulp64 ?x = 2 powr of_int (k - 52)"
    using assms by (intro ulp64_eq) simp_all
  have "ulp64 ?x * 2 ^ 52 = ?x" unfolding u by (rule two_powr_52)
  then have "?x / ulp64 ?x = 2 ^ 52" using ulp64_pos [of ?x] by (simp add: field_simps)
  then have "?x / ulp64 ?x = of_int (2 ^ 52)" by simp
  moreover have "?x \<noteq> 0" by simp
  ultimately show ?thesis by (intro round64_representable)
qed

lemma round64_nat:
  assumes "n < 2 ^ 53"
  shows "round64 (real n) = real n"
proof (cases "n = 0")
  case True
  then show ?thesis by (simp add: round64_0)
next
  case False
  define k where "k = \<lfloor>log 2 (real n)\<rfloor>"
  have n: "0 < real n" using False by simp
  have b: "2 powr of_int k \<le> real n" "real n < 2 powr of_int (k + 1)"
    using n floor_log_eq_powr_iff [of "real n" 2 k] by (simp_all add: k_def)
  have "1 \<le> real n" using False by simp
  then have "0 \<le> log 2 (real n)" by simp
  then have k0: "0 \<le> k" by (simp add: k_def)
  have lt: "(2::real) powr of_int k < 2 powr of_int 53"
  proof -
    have "real n < real (2 ^ 53)" using assms by (simp only: of_nat_less_iff)
    then have "real n < 2 ^ 53" by simp
    moreover have "(2::real) powr of_int 53 = 2 ^ 53" by simp
    ultimately show ?thesis using b(1) by linarith
  qed
  have "((2::real) powr of_int k < 2 powr of_int 53) = ((of_int k :: real) < of_int 53)"
    by (rule powr_less_cancel_iff) simp
  then have "(of_int k :: real) < of_int 53" using lt by (simp only:)
  then have k53: "k < 53" by (simp only: of_int_less_iff)
  have u: "ulp64 (real n) = 2 powr of_int (k - 52)"
    using b k0 by (intro ulp64_eq) simp_all
  define j where "j = nat (52 - k)"
  have "(2::real) powr of_int (k - 52) * 2 powr of_int (52 - k) =
          2 powr (of_int (k - 52) + of_int (52 - k))"
    by (simp only: powr_add)
  also have "\<dots> = 1" by simp
  finally have inv: "(2::real) powr of_int (k - 52) * 2 powr of_int (52 - k) = 1" .
  have "(2::real) powr of_int (52 - k) = 2 powr real j"
    using k53 by (simp add: j_def)
  also have "\<dots> = 2 ^ j" by (simp add: powr_realpow)
  finally have p: "(2::real) powr of_int (52 - k) = 2 ^ j" .
  have "real n / ulp64 (real n) = real n * 2 ^ j"
    using inv unfolding u p by (simp add: field_simps)
  also have "\<dots> = of_int (int n * 2 ^ j)" by simp
  finally have "real n / ulp64 (real n) = of_int (int n * 2 ^ j)" .
  moreover have "real n \<noteq> 0" using False by simp
  ultimately show ?thesis by (intro round64_representable)
qed



lemma round64_half: "round64 (1 / 2) = 1 / 2"
  using round64_pow2 [of "- 1"] by (simp add: powr_minus_divide)


lemma round64_two_power: "round64 (2 ^ n) = 2 ^ n"
  using round64_pow2 [of "int n"] by (simp add: powr_realpow)

lemma round64_inverse_two_power:
  "n \<le> 1022 \<Longrightarrow> round64 (1 / 2 ^ n) = 1 / 2 ^ n"
  using round64_pow2 [of "- int n"] by (simp add: powr_minus_divide powr_realpow)




lemma overflow_threshold_pos: "0 < overflow_threshold"
  unfolding overflow_threshold_def by (rule zero_less_power) simp

lemma below_overflow:
  assumes "a \<le> (2::real) ^ n" and "n < 1024"
  shows "a < overflow_threshold"
proof -
  have "(2::real) ^ n < 2 ^ 1024"
    using assms(2) by (intro power_strict_increasing) simp_all
  then show ?thesis using assms(1) unfolding overflow_threshold_def by (rule le_less_trans [rotated])
qed

lemma fl_nonneg_cases:
  assumes "0 \<le> x"
  shows "fl x = (if overflow_threshold \<le> round64 x then PosInfinity else Num (round64 x))"
proof -
  have "0 \<le> round64 x" using assms by (rule round64_nonneg)
  then have "\<not> round64 x \<le> - overflow_threshold"
    using overflow_threshold_pos by linarith
  then show ?thesis by (simp add: fl_def Let_def)
qed

lemma fl_finite:
  assumes "0 \<le> x" and "x \<le> 2 ^ n" and "n < 1024"
  shows "fl x = Num (round64 x)"
proof -
  have "round64 x \<le> round64 (2 ^ n)" using assms(2) by (rule round64_mono)
  then have "round64 x \<le> 2 ^ n" by (simp only: round64_two_power)
  then have "round64 x < overflow_threshold" using assms(3) by (rule below_overflow)
  then show ?thesis using fl_nonneg_cases [OF assms(1)] by simp
qed





lemma calculateHDHazard_eq:
  "calculateHDHazard t =
     (if overflow_threshold \<le> round64 (exp (- round64 (t - 10))) then 0
      else round64 (1 / round64 (1 + round64 (exp (- round64 (t - 10))))))"
  using fl_nonneg_cases [of "exp (- round64 (t - 10))"]
  by (simp add: calculateHDHazard_def Math_exp_def)




lemma rne_down: "0 \<le> d \<Longrightarrow> d < 1 / 2 \<Longrightarrow> rne (of_int k + d) = k"
proof -
  assume d: "0 \<le> d" "d < 1 / 2"
  have "\<lfloor>real_of_int k + d\<rfloor> = k" by (rule floor_unique) (use d in simp_all)
  then show ?thesis using d by (simp add: rne_def Let_def)
qed



lemma exp_nat_bounds: "2 ^ m \<le> exp (real m)" "exp (real m) \<le> 3 ^ m"
proof -
  have e: "exp (real m) = exp 1 ^ m" using exp_of_nat_mult [of m "1::real"] by simp
  have "(2::real) \<le> exp 1" using exp_ge_add_one_self [of "1::real"] by simp
  then have "(2::real) ^ m \<le> exp 1 ^ m" by (rule power_mono) simp
  then show "2 ^ m \<le> exp (real m)" by (simp only: e)
  have "exp 1 ^ m \<le> (3::real) ^ m" using exp_le by (rule power_mono) simp
  then show "exp (real m) \<le> 3 ^ m" by (simp only: e)
qed

lemma calculateHDHazard_small:
  assumes "n \<le> 10"
  shows "calculateHDHazard (real n) \<le> 1 / 2 ^ (10 - n)"
proof -
  define m where "m = 10 - n"
  have "real n - 10 = - real m" using assms by (simp add: m_def)
  then have "round64 (real n - 10) = - round64 (real m)" by (simp only: round64_minus)
  moreover have "m < 2 ^ 53"
  proof -
    have "m \<le> 10" by (simp add: m_def)
    then show ?thesis by simp
  qed
  ultimately have x: "- round64 (real n - 10) = real m" by (simp add: round64_nat)
  let ?e = "round64 (exp (real m))"
  have "exp (real m) \<le> 3 ^ m" by (rule exp_nat_bounds)
  also have "(3::real) ^ m \<le> 3 ^ 10" by (intro power_increasing) (simp_all add: m_def)
  also have "(3::real) ^ 10 \<le> 2 ^ 16" by simp
  finally have "exp (real m) \<le> 2 ^ 16" .
  then have "?e \<le> round64 (2 ^ 16)" by (rule round64_mono)
  then have "?e \<le> 2 ^ 16" by (simp only: round64_two_power)
  then have fin: "\<not> overflow_threshold \<le> ?e" using below_overflow [of ?e 16] by simp
  have "round64 (2 ^ m) \<le> ?e" using exp_nat_bounds(1) by (rule round64_mono)
  then have lo: "2 ^ m \<le> ?e" by (simp only: round64_two_power)
  then have "round64 (2 ^ m) \<le> round64 (1 + ?e)" by (intro round64_mono) simp
  then have z: "2 ^ m \<le> round64 (1 + ?e)" by (simp only: round64_two_power)
  have "1 / round64 (1 + ?e) \<le> 1 / 2 ^ m"
    using z by (intro divide_left_mono) (simp_all add: mult_pos_pos less_le_trans [OF _ z])
  then have "round64 (1 / round64 (1 + ?e)) \<le> round64 (1 / 2 ^ m)" by (rule round64_mono)
  moreover have "m \<le> 1022" by (simp add: m_def)
  ultimately have "round64 (1 / round64 (1 + ?e)) \<le> 1 / 2 ^ m"
    by (simp only: round64_inverse_two_power)
  then show ?thesis using fin by (simp add: calculateHDHazard_eq x m_def)
qed










lemma round64_eval:
  assumes "x \<noteq> 0" and "ulp64 x = u" and "rne (x / u) = m"
  shows "round64 x = of_int m * u"
  using assms by (simp add: round64_def)




text \<open>The decimal literals of the thresholds, and a draw compared with them.\<close>

lemma rne_up: "1 / 2 < d \<Longrightarrow> d < 1 \<Longrightarrow> rne (of_int k + d) = k + 1"
proof -
  assume d: "1 / 2 < d" "d < 1"
  have "\<lfloor>real_of_int k + d\<rfloor> = k" by (rule floor_unique) (use d in simp_all)
  then show ?thesis using d by (simp add: rne_def Let_def)
qed

lemma round64_literals:
  "round64 (1 / 10) = 7205759403792794 / 2 ^ 56"
  "round64 (2 / 10) = 7205759403792794 / 2 ^ 55"
  "round64 (3 / 10) = 5404319552844595 / 2 ^ 54"
proof -
  define x :: real where "x = 1 / 10"
  have "ulp64 x = 2 powr of_int (- 4 - 52)"
    by (intro ulp64_eq) (simp_all add: x_def powr_minus_divide)
  then have u: "ulp64 x = 1 / 2 ^ 56" by (simp add: powr_minus_divide)
  have "x / (1 / 2 ^ 56) = of_int 7205759403792793 + 6 / 10" by (simp add: x_def)
  moreover have "rne (of_int 7205759403792793 + 6 / 10) = 7205759403792793 + 1"
    by (rule rne_up) simp_all
  ultimately have r: "rne (x / (1 / 2 ^ 56)) = 7205759403792794" by (simp only:)
  have "x \<noteq> 0" by (simp add: x_def)
  then have "round64 x = of_int 7205759403792794 * (1 / 2 ^ 56)" using u r by (rule round64_eval)
  then show "round64 (1 / 10) = 7205759403792794 / 2 ^ 56" by (simp add: x_def)
next
  define x :: real where "x = 2 / 10"
  have "ulp64 x = 2 powr of_int (- 3 - 52)"
    by (intro ulp64_eq) (simp_all add: x_def powr_minus_divide)
  then have u: "ulp64 x = 1 / 2 ^ 55" by (simp add: powr_minus_divide)
  have "x / (1 / 2 ^ 55) = of_int 7205759403792793 + 6 / 10" by (simp add: x_def)
  moreover have "rne (of_int 7205759403792793 + 6 / 10) = 7205759403792793 + 1"
    by (rule rne_up) simp_all
  ultimately have r: "rne (x / (1 / 2 ^ 55)) = 7205759403792794" by (simp only:)
  have "x \<noteq> 0" by (simp add: x_def)
  then have "round64 x = of_int 7205759403792794 * (1 / 2 ^ 55)" using u r by (rule round64_eval)
  then show "round64 (2 / 10) = 7205759403792794 / 2 ^ 55" by (simp add: x_def)
next
  define x :: real where "x = 3 / 10"
  have "ulp64 x = 2 powr of_int (- 2 - 52)"
    by (intro ulp64_eq) (simp_all add: x_def powr_minus_divide)
  then have u: "ulp64 x = 1 / 2 ^ 54" by (simp add: powr_minus_divide)
  have "x / (1 / 2 ^ 54) = of_int 5404319552844595 + 2 / 10" by (simp add: x_def)
  moreover have "rne (of_int 5404319552844595 + 2 / 10) = 5404319552844595"
    by (rule rne_down) simp_all
  ultimately have r: "rne (x / (1 / 2 ^ 54)) = 5404319552844595" by (simp only:)
  have "x \<noteq> 0" by (simp add: x_def)
  then have "round64 x = of_int 5404319552844595 * (1 / 2 ^ 54)" using u r by (rule round64_eval)
  then show "round64 (3 / 10) = 5404319552844595 / 2 ^ 54" by (simp add: x_def)
qed

lemma draw_against_literal:
  fixes k :: int
  shows "(real_of_int k / 2 ^ 32 < round64 (1 / 10)) = (real_of_int k / 2 ^ 32 < 1 / 10)"
    and "(real_of_int k / 2 ^ 32 < round64 (2 / 10)) = (real_of_int k / 2 ^ 32 < 2 / 10)"
    and "(real_of_int k / 2 ^ 32 < round64 (3 / 10)) = (real_of_int k / 2 ^ 32 < 3 / 10)"
    and "round64 (1 / 2) = 1 / 2"
proof -
  have a: "(real_of_int k / 2 ^ 32 < 7205759403792794 / 2 ^ 56) = (k * 2 ^ 24 < 7205759403792794)"
  proof -
    have "(real_of_int k / 2 ^ 32 < 7205759403792794 / 2 ^ 56) =
            (real_of_int (k * 2 ^ 24) < real_of_int 7205759403792794)"
      by (simp add: field_simps)
    then show ?thesis by (simp only: of_int_less_iff)
  qed
  have b: "(real_of_int k / 2 ^ 32 < 1 / 10) = (k * 10 < 2 ^ 32)"
  proof -
    have "(real_of_int k / 2 ^ 32 < 1 / 10) = (real_of_int (k * 10) < real_of_int (2 ^ 32))"
      by (simp add: field_simps)
    then show ?thesis by (simp only: of_int_less_iff)
  qed
  have "(k * 2 ^ 24 < 7205759403792794) = (k \<le> 429496729)" by auto
  moreover have "(k * 10 < 2 ^ 32) = (k \<le> 429496729)" by auto
  ultimately have "(k * 2 ^ 24 < 7205759403792794) = (k * 10 < 2 ^ 32)" by (simp only:)
  then show "(real_of_int k / 2 ^ 32 < round64 (1 / 10)) = (real_of_int k / 2 ^ 32 < 1 / 10)"
    by (simp only: round64_literals a b)
  show "round64 (1 / 2) = 1 / 2" by (rule round64_half)
  have c: "(real_of_int k / 2 ^ 32 < 7205759403792794 / 2 ^ 55) = (k * 2 ^ 23 < 7205759403792794)"
  proof -
    have "(real_of_int k / 2 ^ 32 < 7205759403792794 / 2 ^ 55) =
            (real_of_int (k * 2 ^ 23) < real_of_int 7205759403792794)"
      by (simp add: field_simps)
    then show ?thesis by (simp only: of_int_less_iff)
  qed
  have d: "(real_of_int k / 2 ^ 32 < 2 / 10) = (k * 10 < 2 * 2 ^ 32)"
  proof -
    have "(real_of_int k / 2 ^ 32 < 2 / 10) = (real_of_int (k * 10) < real_of_int (2 * 2 ^ 32))"
      by (simp add: field_simps)
    then show ?thesis by (simp only: of_int_less_iff)
  qed
  have "(k * 2 ^ 23 < 7205759403792794) = (k \<le> 858993459)" by auto
  moreover have "(k * 10 < 2 * 2 ^ 32) = (k \<le> 858993459)" by auto
  ultimately have "(k * 2 ^ 23 < 7205759403792794) = (k * 10 < 2 * 2 ^ 32)" by (simp only:)
  then show "(real_of_int k / 2 ^ 32 < round64 (2 / 10)) = (real_of_int k / 2 ^ 32 < 2 / 10)"
    by (simp only: round64_literals c d)
  have e: "(real_of_int k / 2 ^ 32 < 5404319552844595 / 2 ^ 54) = (k * 2 ^ 22 < 5404319552844595)"
  proof -
    have "(real_of_int k / 2 ^ 32 < 5404319552844595 / 2 ^ 54) =
            (real_of_int (k * 2 ^ 22) < real_of_int 5404319552844595)"
      by (simp add: field_simps)
    then show ?thesis by (simp only: of_int_less_iff)
  qed
  have f: "(real_of_int k / 2 ^ 32 < 3 / 10) = (k * 10 < 3 * 2 ^ 32)"
  proof -
    have "(real_of_int k / 2 ^ 32 < 3 / 10) = (real_of_int (k * 10) < real_of_int (3 * 2 ^ 32))"
      by (simp add: field_simps)
    then show ?thesis by (simp only: of_int_less_iff)
  qed
  have "(k * 2 ^ 22 < 5404319552844595) = (k \<le> 1288490188)" by auto
  moreover have "(k * 10 < 3 * 2 ^ 32) = (k \<le> 1288490188)" by auto
  ultimately have "(k * 2 ^ 22 < 5404319552844595) = (k * 10 < 3 * 2 ^ 32)" by (simp only:)
  then show "(real_of_int k / 2 ^ 32 < round64 (3 / 10)) = (real_of_int k / 2 ^ 32 < 3 / 10)"
    by (simp only: round64_literals e f)
qed

subsection \<open>Properties of SeededRandom\<close>

lemma js_rem_nonneg: "0 \<le> a \<Longrightarrow> 0 < b \<Longrightarrow> js_rem a b = a mod b"
  by (cases "a = 0") (simp_all add: js_rem_def)

lemma random_current:
  "0 \<le> current r \<Longrightarrow>
   current (snd (random r)) = (current r * 1664525 + 1013904223) mod 2 ^ 32"
  by (simp add: random_def Let_def js_rem_nonneg)

lemma random_fst: "fst (random r) = real_of_int (current (snd (random r))) / 2 ^ 32"
  by (simp add: random_def Let_def)

lemma random_seed: "seed (snd (random r)) = seed r"
  by (simp add: random_def Let_def)

lemma random_valid: "0 \<le> current r \<Longrightarrow> valid_stream (snd (random r))"
  by (simp add: valid_stream_def random_current)

lemma random_exact_range:
  "valid_stream r \<Longrightarrow>
   0 \<le> current r * 1664525 + 1013904223 \<and> current r * 1664525 + 1013904223 < 2 ^ 53"
  by (simp add: valid_stream_def)

lemma random_unit_interval:
  assumes "0 \<le> current r"
  shows "0 \<le> fst (random r)" and "fst (random r) < 1"
proof -
  let ?c = "current (snd (random r))"
  have v: "0 \<le> ?c" "?c < 2 ^ 32"
    using random_valid [OF assms] by (simp_all add: valid_stream_def)
  show "0 \<le> fst (random r)"
    using v(1) by (simp add: random_fst)
  have "real_of_int ?c < real_of_int (2 ^ 32)"
    using v(2) by (simp only: of_int_less_iff)
  then show "fst (random r) < 1"
    by (simp add: random_fst)
qed

lemma random_calls_valid: "valid_stream r \<Longrightarrow> valid_stream (random_calls n r)"
proof (induction n arbitrary: r)
  case 0
  then show ?case by simp
next
  case (Suc n)
  from Suc.prems have "0 \<le> current r" by (simp add: valid_stream_def)
  then have "valid_stream (snd (random r))" by (rule random_valid)
  then show ?case by (simp add: Suc.IH)
qed

lemma random_calls_Suc: "random_calls (Suc n) r = snd (random (random_calls n r))"
  by (induction n arbitrary: r) simp_all

subsection \<open>Sampling and the generation loop\<close>


lemma valid_random: "valid_stream r \<Longrightarrow> valid_stream (snd (random r))"
  by (rule random_valid) (simp add: valid_stream_def)

lemma sampleTriangular_snd: "snd (sampleTriangular c h r) = snd (random r)"
  by (simp add: sampleTriangular_def Let_def split: prod.split)

lemma sampleTriangular_range:
  "0 \<le> fst (sampleTriangular c h r) \<and> fst (sampleTriangular c h r) \<le> STATE_RANGE"
  by (simp add: sampleTriangular_def Let_def STATE_RANGE_def split: prod.split)

lemma sampleTriangular_valid: "valid_stream r \<Longrightarrow> valid_stream (snd (sampleTriangular c h r))"
  by (simp add: sampleTriangular_snd valid_random)

lemma sampleBimodalTransition_range:
  "0 \<le> fst (sampleBimodalTransition cs r) \<and> fst (sampleBimodalTransition cs r) \<le> STATE_RANGE"
  by (simp add: sampleBimodalTransition_def Let_def sampleTriangular_range split: prod.split)

lemma sampleBimodalTransition_valid:
  "valid_stream r \<Longrightarrow> valid_stream (snd (sampleBimodalTransition cs r))"
  by (simp add: sampleBimodalTransition_def Let_def split_beta sampleTriangular_valid valid_random)

lemma exploration_move_range:
  "0 \<le> fst (exploration_move cs r) \<and> fst (exploration_move cs r) \<le> STATE_RANGE"
  by (simp add: exploration_move_def Let_def sampleTriangular_range split: prod.split)

lemma exploration_move_valid:
  "valid_stream r \<Longrightarrow> valid_stream (snd (exploration_move cs r))"
  by (simp add: exploration_move_def Let_def split_beta sampleTriangular_valid valid_random)


lemma change_step_range:
  assumes "0 \<le> cs \<and> cs \<le> STATE_RANGE"
  shows "0 \<le> fst (snd (change_step i t h cs ta r))
         \<and> fst (snd (change_step i t h cs ta r)) \<le> STATE_RANGE"
  using assms
  by (simp add: change_step_def Let_def split_beta sampleBimodalTransition_range
      exploration_move_range)

lemma change_step_valid:
  "valid_stream r \<Longrightarrow> valid_stream (snd (snd (snd (change_step i t h cs ta r))))"
  by (simp add: change_step_def Let_def split_beta sampleBimodalTransition_valid
      exploration_move_valid valid_random)

lemma change_step_tau:
  "fst (snd (snd (change_step i t h cs ta r))) =
     (if fst (change_step i t h cs ta r) then 0 else ta + 1)"
  by (simp add: change_step_def Let_def split_beta)

lemma body_rng: "ls_rng (generateSequence_body c i p t st) =
   snd (random (snd (snd (snd (change_step i t (if c = ''HI'' then 0.1
                    else calculateHDHazard (real (ls_tau st))) (ls_currentState st) (ls_tau st) (ls_rng st))))))"
  by (simp add: generateSequence_body_def Let_def split_beta sampleTriangular_snd)

lemma body_trials: "ls_trials (generateSequence_body c i p t st) =
   ls_trials st @ [last (ls_trials (generateSequence_body c i p t st))]"
  by (simp add: generateSequence_body_def Let_def split_beta)


lemma loop_step:
  "int t < n \<Longrightarrow> generateSequence_loop c n i p t st =
     generateSequence_loop c n i p (Suc t) (generateSequence_body c i p t st)"
  by (subst generateSequence_loop.simps) simp

lemma loop_stop: "\<not> int t < n \<Longrightarrow> generateSequence_loop c n i p t st = st"
  by (subst generateSequence_loop.simps) simp

lemma loop_invariant:
  "I st \<Longrightarrow> (\<And>t s. I s \<Longrightarrow> I (generateSequence_body c i p t s))
     \<Longrightarrow> I (generateSequence_loop c n i p t st)"
proof (induction c n i p t st rule: generateSequence_loop.induct)
  case (1 cond nTrials isTutorial tutorialPhase t st)
  show ?case
  proof (cases "int t < nTrials")
    case True
    have "I (generateSequence_body cond isTutorial tutorialPhase t st)"
      using "1.prems" by blast
    then have "I (generateSequence_loop cond nTrials isTutorial tutorialPhase (Suc t)
                    (generateSequence_body cond isTutorial tutorialPhase t st))"
      using True "1.IH" "1.prems"(2) by blast
    then show ?thesis using True by (simp add: loop_step)
  next
    case False
    then show ?thesis using "1.prems" by (simp add: loop_stop)
  qed
qed

lemma loop_length:
  "length (ls_trials (generateSequence_loop c n i p t st)) =
     length (ls_trials st) + nat (n - int t)"
proof (induction c n i p t st rule: generateSequence_loop.induct)
  case (1 cond nTrials isTutorial tutorialPhase t st)
  show ?case
  proof (cases "int t < nTrials")
    case True
    have "length (ls_trials (generateSequence_body cond isTutorial tutorialPhase t st)) =
            Suc (length (ls_trials st))"
      by (subst body_trials) simp
    moreover have "nat (nTrials - int t) = Suc (nat (nTrials - int (Suc t)))"
      using True by simp
    ultimately show ?thesis using True "1.IH" by (simp add: loop_step)
  next
    case False
    then show ?thesis by (simp add: loop_stop)
  qed
qed

lemma generateSequence_length:
  "length (fst (generateSequence c n i p g)) = nat n"
  by (simp add: generateSequence_def Let_def split_beta loop_length)


lemma body_range_inv:
  assumes "range_inv s"
  shows "range_inv (generateSequence_body c i p t s)"
proof -
  let ?h = "if c = ''HI'' then 0.1 else calculateHDHazard (real (ls_tau s))"
  let ?cs = "change_step i t ?h (ls_currentState s) (ls_tau s) (ls_rng s)"
  have cs: "0 \<le> fst (snd ?cs) \<and> fst (snd ?cs) \<le> STATE_RANGE"
    using assms by (intro change_step_range) (simp add: range_inv_def)
  have v: "valid_stream (snd (snd (snd ?cs)))"
    using assms by (intro change_step_valid) (simp add: range_inv_def)
  have v2: "valid_stream (ls_rng (generateSequence_body c i p t s))"
    unfolding body_rng using v by (rule valid_random)
  have "ls_currentState (generateSequence_body c i p t s) = fst (snd ?cs)"
    by (simp add: generateSequence_body_def Let_def split_beta)
  moreover have "\<forall>tr \<in> set (ls_trials (generateSequence_body c i p t s)). in_range tr"
    using assms cs
    by (simp add: generateSequence_body_def Let_def split_beta range_inv_def in_range_def
        sampleTriangular_range)
  ultimately show ?thesis using cs v2 by (simp add: range_inv_def)
qed

lemma generateSequence_rng:
  "rng (snd (generateSequence c n i p g)) =
     ls_rng (generateSequence_loop c n i p 0
        \<lparr>ls_rng = snd (random (rng g)), ls_currentState = fst (random (rng g)) * STATE_RANGE,
         ls_tau = 0, ls_trials = []\<rparr>)"
  by (simp add: generateSequence_def Let_def split_beta)

lemma generateSequence_range_inv:
  assumes "valid_stream (rng g)"
  shows "range_inv (generateSequence_loop c n i p 0
        \<lparr>ls_rng = snd (random (rng g)), ls_currentState = fst (random (rng g)) * STATE_RANGE,
         ls_tau = 0, ls_trials = []\<rparr>)"
proof (rule loop_invariant)
  have nn: "0 \<le> current (rng g)" using assms by (simp add: valid_stream_def)
  have "0 \<le> fst (random (rng g))" "fst (random (rng g)) < 1"
    using random_unit_interval [OF nn] by simp_all
  then have "0 \<le> fst (random (rng g)) * STATE_RANGE \<and> fst (random (rng g)) * STATE_RANGE \<le> STATE_RANGE"
    by (simp add: STATE_RANGE_def)
  then show "range_inv \<lparr>ls_rng = snd (random (rng g)),
      ls_currentState = fst (random (rng g)) * STATE_RANGE, ls_tau = 0, ls_trials = []\<rparr>"
    using valid_random [OF assms] by (simp add: range_inv_def)
next
  fix t s assume "range_inv s"
  then show "range_inv (generateSequence_body c i p t s)" by (rule body_range_inv)
qed

lemma generateSequence_in_range:
  "valid_stream (rng g) \<Longrightarrow> \<forall>tr \<in> set (fst (generateSequence c n i p g)). in_range tr"
  using generateSequence_range_inv [of g c n i p]
  by (simp add: generateSequence_def Let_def split_beta range_inv_def)

lemma generateSequence_valid:
  "valid_stream (rng g) \<Longrightarrow> valid_stream (rng (snd (generateSequence c n i p g)))"
  using generateSequence_range_inv [of g c n i p]
  by (simp add: generateSequence_rng range_inv_def)


subsection \<open>Session assembly\<close>


lemma tutorial_loop_step:
  "phase \<le> 5 \<Longrightarrow> tutorial_loop c phase ts g =
     tutorial_loop c (Suc phase)
       (ts @ [fst (generateSequence c (TUTORIAL_TRIALS ! (phase - 1)) True (Some phase) g)])
       (snd (generateSequence c (TUTORIAL_TRIALS ! (phase - 1)) True (Some phase) g))"
  by (subst tutorial_loop.simps) (simp add: Let_def split_beta)

lemma tutorial_loop_stop: "\<not> phase \<le> 5 \<Longrightarrow> tutorial_loop c phase ts g = (ts, g)"
  by (subst tutorial_loop.simps) simp

lemma generateTutorialSequences_unfold:
  "generateTutorialSequences c g =
     (let (a1, g1) = generateSequence c 10 True (Some 1) g;
          (a2, g2) = generateSequence c 10 True (Some 2) g1;
          (a3, g3) = generateSequence c 15 True (Some 3) g2;
          (a4, g4) = generateSequence c 15 True (Some 4) g3;
          (a5, g5) = generateSequence c 20 True (Some 5) g4
      in ([a1, a2, a3, a4, a5], g5))"
  by (simp add: generateTutorialSequences_def tutorial_loop_step tutorial_loop_stop
      TUTORIAL_TRIALS_def Let_def split_beta eval_nat_numeral)



lemma generateAllSequences_unfold:
  "generateAllSequences g =
     (let (a1, g1) = generateSequence ''HI'' 10 True (Some 1) g;
          (a2, g2) = generateSequence ''HI'' 10 True (Some 2) g1;
          (a3, g3) = generateSequence ''HI'' 15 True (Some 3) g2;
          (a4, g4) = generateSequence ''HI'' 15 True (Some 4) g3;
          (a5, g5) = generateSequence ''HI'' 20 True (Some 5) g4;
          (a6, g6) = generateSequence ''HI'' (MAIN_TRIALS g5) False None g5;
          (b1, h1) = generateSequence ''HD'' 10 True (Some 1) g6;
          (b2, h2) = generateSequence ''HD'' 10 True (Some 2) h1;
          (b3, h3) = generateSequence ''HD'' 15 True (Some 3) h2;
          (b4, h4) = generateSequence ''HD'' 15 True (Some 4) h3;
          (b5, h5) = generateSequence ''HD'' 20 True (Some 5) h4;
          (b6, h6) = generateSequence ''HD'' (MAIN_TRIALS h5) False None h5
      in (\<lparr>HI = \<lparr>tutorials = [a1, a2, a3, a4, a5], main = a6\<rparr>,
           HD = \<lparr>tutorials = [b1, b2, b3, b4, b5], main = b6\<rparr>\<rparr>, h6))"
  by (simp add: generateAllSequences_def generateTutorialSequences_unfold
      generateMainSequence_def Let_def split_beta)

lemma generateSequence_MAIN_TRIALS:
  "MAIN_TRIALS (snd (generateSequence c n i p g)) = MAIN_TRIALS g"
  by (simp add: generateSequence_def Let_def split_beta)

lemma tutorial_loop_in_range:
  "valid_stream (rng g) \<Longrightarrow> seqs_in_range acc \<Longrightarrow>
     seqs_in_range (fst (tutorial_loop c ph acc g))
     \<and> valid_stream (rng (snd (tutorial_loop c ph acc g)))"
proof (induction c ph acc g rule: tutorial_loop.induct)
  case (1 cond phase tutorials g)
  show ?case
  proof (cases "phase \<le> 5")
    case True
    let ?q = "generateSequence cond (TUTORIAL_TRIALS ! (phase - 1)) True (Some phase) g"
    have a: "valid_stream (rng (snd ?q))"
      using "1.prems"(1) by (rule generateSequence_valid)
    have "\<forall>tr \<in> set (fst ?q). in_range tr"
      using "1.prems"(1) by (rule generateSequence_in_range)
    then have b: "seqs_in_range (tutorials @ [fst ?q])"
      using "1.prems"(2) by (simp add: seqs_in_range_def)
    have "seqs_in_range (fst (tutorial_loop cond (Suc phase) (tutorials @ [fst ?q]) (snd ?q)))
          \<and> valid_stream (rng (snd (tutorial_loop cond (Suc phase) (tutorials @ [fst ?q]) (snd ?q))))"
      using "1.IH" [OF True refl refl prod.collapse a b] by simp
    then show ?thesis using True by (simp add: tutorial_loop_step)
  next
    case False
    then show ?thesis using "1.prems" by (simp add: tutorial_loop_stop)
  qed
qed

lemma generateTutorialSequences_in_range:
  assumes "valid_stream (rng g)"
  shows "seqs_in_range (fst (generateTutorialSequences c g))"
    and "valid_stream (rng (snd (generateTutorialSequences c g)))"
  using tutorial_loop_in_range [OF assms, of "[]" c 1]
  by (simp_all add: generateTutorialSequences_def seqs_in_range_def)

lemma generateMainSequence_in_range:
  assumes "valid_stream (rng g)"
  shows "\<forall>tr \<in> set (fst (generateMainSequence c g)). in_range tr"
    and "valid_stream (rng (snd (generateMainSequence c g)))"
  using assms
  by (simp_all add: generateMainSequence_def generateSequence_in_range generateSequence_valid)

lemma generateAllSequences_in_range:
  assumes "valid_stream (rng g)"
  shows "seqs_in_range (all_sequences (fst (generateAllSequences g)))"
proof -
  let ?t1 = "generateTutorialSequences ''HI'' g"
  let ?m1 = "generateMainSequence ''HI'' (snd ?t1)"
  let ?t2 = "generateTutorialSequences ''HD'' (snd ?m1)"
  let ?m2 = "generateMainSequence ''HD'' (snd ?t2)"
  have v1: "valid_stream (rng (snd ?t1))"
    using assms by (rule generateTutorialSequences_in_range(2))
  have v2: "valid_stream (rng (snd ?m1))"
    using v1 by (rule generateMainSequence_in_range(2))
  have v3: "valid_stream (rng (snd ?t2))"
    using v2 by (rule generateTutorialSequences_in_range(2))
  have r1: "seqs_in_range (fst ?t1)"
    using assms by (rule generateTutorialSequences_in_range(1))
  have r2: "\<forall>tr \<in> set (fst ?m1). in_range tr"
    using v1 by (rule generateMainSequence_in_range(1))
  have r3: "seqs_in_range (fst ?t2)"
    using v2 by (rule generateTutorialSequences_in_range(1))
  have r4: "\<forall>tr \<in> set (fst ?m2). in_range tr"
    using v3 by (rule generateMainSequence_in_range(1))
  have "all_sequences (fst (generateAllSequences g)) =
          fst ?t1 @ [fst ?m1] @ fst ?t2 @ [fst ?m2]"
    by (simp add: generateAllSequences_def all_sequences_def Let_def split_beta)
  then show ?thesis
    using r1 r2 r3 r4 by (auto simp add: seqs_in_range_def)
qed


subsection \<open>The counter tau\<close>

lemma tau_chain_append:
  "tau_chain prev (xs @ [x]) = (tau_chain prev xs \<and> tau_step (last_tau prev xs) x)"
  by (induction xs arbitrary: prev) (auto simp add: last_tau_def)

lemma tau_chain_nth:
  "tau_chain prev xs \<Longrightarrow> k < length xs \<Longrightarrow>
     tau_step (if k = 0 then prev else tau_true (xs ! (k - 1))) (xs ! k)"
proof (induction xs arbitrary: prev k)
  case Nil
  then show ?case by simp
next
  case (Cons x xs)
  show ?case
  proof (cases k)
    case 0
    then show ?thesis using Cons.prems by simp
  next
    case (Suc j)
    then have "tau_step (if j = 0 then tau_true x else tau_true (xs ! (j - 1))) (xs ! j)"
      using Cons.IH [of "tau_true x" j] Cons.prems by simp
    then show ?thesis using Suc by (cases j) simp_all
  qed
qed

lemma body_tau_inv:
  assumes "tau_inv s"
  shows "tau_inv (generateSequence_body c i p t s)"
proof -
  let ?h = "if c = ''HI'' then 0.1 else calculateHDHazard (real (ls_tau s))"
  let ?cs = "change_step i t ?h (ls_currentState s) (ls_tau s) (ls_rng s)"
  let ?b = "generateSequence_body c i p t s"
  have t: "ls_tau ?b = (if fst ?cs then 0 else ls_tau s + 1)"
    by (simp add: generateSequence_body_def Let_def split_beta change_step_tau)
  have l: "ls_trials ?b = ls_trials s @ [last (ls_trials ?b)]"
    by (rule body_trials)
  have f: "change_flag (last (ls_trials ?b)) = fst ?cs"
    by (simp add: generateSequence_body_def Let_def split_beta)
  have g: "tau_true (last (ls_trials ?b)) = ls_tau ?b"
    by (simp add: generateSequence_body_def Let_def split_beta)
  have "tau_step (ls_tau s) (last (ls_trials ?b))"
    by (simp add: tau_step_def f g t)
  then have "tau_chain 0 (ls_trials ?b)"
    using assms by (subst l) (simp add: tau_chain_append tau_inv_def)
  moreover have "ls_tau ?b = last_tau 0 (ls_trials ?b)"
    by (subst l) (simp add: last_tau_def g)
  ultimately show ?thesis by (simp add: tau_inv_def)
qed

lemma generateSequence_tau_chain: "tau_chain 0 (fst (generateSequence c n i p g))"
proof -
  let ?st = "\<lparr>ls_rng = snd (random (rng g)),
              ls_currentState = fst (random (rng g)) * STATE_RANGE,
              ls_tau = 0, ls_trials = []\<rparr>"
  have "tau_inv (generateSequence_loop c n i p 0 ?st)"
  proof (rule loop_invariant)
    show "tau_inv ?st" by (simp add: tau_inv_def last_tau_def)
  next
    fix t s assume "tau_inv s"
    then show "tau_inv (generateSequence_body c i p t s)" by (rule body_tau_inv)
  qed
  then show ?thesis
    by (simp add: generateSequence_def Let_def split_beta tau_inv_def)
qed


subsection \<open>Evaluation at the seed 12345\<close>

lemma calculateHDHazard_0_small: "calculateHDHazard 0 < 1 / 1000"
proof -
  have "calculateHDHazard (real 0) \<le> 1 / 2 ^ (10 - 0)" by (rule calculateHDHazard_small) simp
  then show ?thesis by simp
qed

lemma first_draws:
  "random (new_SeededRandom 12345) = (87628868 / 2 ^ 32, \<lparr>seed = 12345, current = 87628868\<rparr>)"
  "random \<lparr>seed = 12345, current = 87628868\<rparr> = (71072467 / 2 ^ 32, \<lparr>seed = 12345, current = 71072467\<rparr>)"
  by (simp_all add: random_def new_SeededRandom_def js_rem_def Let_def)


lemma change_step_no_change:
  "\<not> fst (random r) < h \<Longrightarrow> change_step i t h cs ta r = (False, cs, ta + 1, snd (random r))"
  by (simp add: change_step_def Let_def split_beta)

lemma body_no_change:
  assumes "\<not> fst (random (ls_rng s)) <
             (if c = ''HI'' then 0.1 else calculateHDHazard (real (ls_tau s)))"
  shows "ls_rng (generateSequence_body c i p t s) = snd (random (snd (random (ls_rng s))))"
    and "ls_tau (generateSequence_body c i p t s) = ls_tau s + 1"
    and "ls_currentState (generateSequence_body c i p t s) = ls_currentState s"
    and "change_flag (last (ls_trials (generateSequence_body c i p t s))) = False"
    and "tau_true (last (ls_trials (generateSequence_body c i p t s))) = ls_tau s + 1"
    and "s_t (last (ls_trials (generateSequence_body c i p t s))) = ls_currentState s"
  using assms
  by (simp_all add: generateSequence_body_def change_step_no_change Let_def split_beta
      sampleTriangular_snd)

lemma calculateHDHazard_1_small: "calculateHDHazard 1 < 1 / 500"
proof -
  have "calculateHDHazard (real 1) \<le> 1 / 2 ^ (10 - 1)" by (rule calculateHDHazard_small) simp
  then show ?thesis by simp
qed

lemma loop_two:
  "generateSequence_loop c 2 i p 0 s =
     generateSequence_body c i p 1 (generateSequence_body c i p 0 s)"
  by (simp add: loop_step loop_stop)

lemma stream_12345:
  "random \<lparr>seed = 12345, current = 12345\<rparr> =
     (87628868 / 2 ^ 32, \<lparr>seed = 12345, current = 87628868\<rparr>)"
  "random \<lparr>seed = 12345, current = 87628868\<rparr> =
     (71072467 / 2 ^ 32, \<lparr>seed = 12345, current = 71072467\<rparr>)"
  "random \<lparr>seed = 12345, current = 71072467\<rparr> =
     (2332836374 / 2 ^ 32, \<lparr>seed = 12345, current = 2332836374\<rparr>)"
  "random \<lparr>seed = 12345, current = 2332836374\<rparr> =
     (2726892157 / 2 ^ 32, \<lparr>seed = 12345, current = 2726892157\<rparr>)"
  by (simp_all add: random_def js_rem_def Let_def)


subsection \<open>Hazard\<close>




subsection \<open>Order and lengths of the generated sequences\<close>

lemma generateTutorialSequences_MAIN_TRIALS:
  "MAIN_TRIALS (snd (generateTutorialSequences c g)) = MAIN_TRIALS g"
  by (simp add: generateTutorialSequences_unfold Let_def split_beta generateSequence_MAIN_TRIALS)

lemma generateTutorialSequences_lengths:
  "map length (fst (generateTutorialSequences c g)) = [10, 10, 15, 15, 20]"
  by (simp add: generateTutorialSequences_unfold Let_def split_beta generateSequence_length)

lemma generateMainSequence_length:
  "length (fst (generateMainSequence c g)) = nat (MAIN_TRIALS g)"
  by (simp add: generateMainSequence_def generateSequence_length)

lemma generateMainSequence_MAIN_TRIALS:
  "MAIN_TRIALS (snd (generateMainSequence c g)) = MAIN_TRIALS g"
  by (simp add: generateMainSequence_def generateSequence_MAIN_TRIALS)

lemma all_sequences_lengths:
  "map length (all_sequences (fst (generateAllSequences g))) =
     [10, 10, 15, 15, 20, nat (MAIN_TRIALS g), 10, 10, 15, 15, 20, nat (MAIN_TRIALS g)]"
  by (simp add: generateAllSequences_def all_sequences_def Let_def split_beta
      generateTutorialSequences_lengths generateMainSequence_length
      generateTutorialSequences_MAIN_TRIALS generateMainSequence_MAIN_TRIALS)

lemma generateAllSequences_chain:
  "generateAllSequences g =
     (let (a1, g1) = generateSequence ''HI'' 10 True (Some 1) g;
          (a2, g2) = generateSequence ''HI'' 10 True (Some 2) g1;
          (a3, g3) = generateSequence ''HI'' 15 True (Some 3) g2;
          (a4, g4) = generateSequence ''HI'' 15 True (Some 4) g3;
          (a5, g5) = generateSequence ''HI'' 20 True (Some 5) g4;
          (a6, g6) = generateSequence ''HI'' (MAIN_TRIALS g) False None g5;
          (b1, h1) = generateSequence ''HD'' 10 True (Some 1) g6;
          (b2, h2) = generateSequence ''HD'' 10 True (Some 2) h1;
          (b3, h3) = generateSequence ''HD'' 15 True (Some 3) h2;
          (b4, h4) = generateSequence ''HD'' 15 True (Some 4) h3;
          (b5, h5) = generateSequence ''HD'' 20 True (Some 5) h4;
          (b6, h6) = generateSequence ''HD'' (MAIN_TRIALS g) False None h5
      in (\<lparr>HI = \<lparr>tutorials = [a1, a2, a3, a4, a5], main = a6\<rparr>,
           HD = \<lparr>tutorials = [b1, b2, b3, b4, b5], main = b6\<rparr>\<rparr>, h6))"
  by (simp add: generateAllSequences_unfold Let_def split_beta generateSequence_MAIN_TRIALS)


subsection \<open>Coverage analysis\<close>

lemma range_statistics_empty: "degenerate (range_statistics [])"
  by (simp add: degenerate_def range_statistics_def)

lemma range_statistics_nonempty: "xs \<noteq> [] \<Longrightarrow> finite_stats (range_statistics xs)"
  by (cases xs) (simp_all add: finite_stats_def range_statistics_def is_finite_def)

lemma analyze_condition_empty:
  "degenerate (stateRange (analyze_condition []))
   \<and> degenerate (observationRange (analyze_condition []))"
  by (simp add: analyze_condition_def range_statistics_empty)

lemma analyze_condition_nonempty:
  "ts \<noteq> [] \<Longrightarrow> finite_stats (stateRange (analyze_condition ts))
     \<and> finite_stats (observationRange (analyze_condition ts))"
  by (simp add: analyze_condition_def range_statistics_nonempty Let_def)


lemma main_lengths:
  "length (main (HI (fst (generateAllSequences g)))) = nat (MAIN_TRIALS g)"
  "length (main (HD (fst (generateAllSequences g)))) = nat (MAIN_TRIALS g)"
  by (simp_all add: generateAllSequences_def Let_def split_beta generateMainSequence_length
      generateTutorialSequences_MAIN_TRIALS generateMainSequence_MAIN_TRIALS)


subsection \<open>Generation reads the stream state and the trial count only\<close>

lemma random_reseed:
  "random (r\<lparr>seed := sd\<rparr>) = (fst (random r), (snd (random r))\<lparr>seed := sd\<rparr>)"
  by (simp add: random_def Let_def)

lemma sampleTriangular_reseed:
  "sampleTriangular c h (r\<lparr>seed := sd\<rparr>) =
     (fst (sampleTriangular c h r), (snd (sampleTriangular c h r))\<lparr>seed := sd\<rparr>)"
  by (simp add: sampleTriangular_def random_reseed Let_def split_beta)

lemma sampleBimodalTransition_reseed:
  "sampleBimodalTransition cs (r\<lparr>seed := sd\<rparr>) =
     (fst (sampleBimodalTransition cs r), (snd (sampleBimodalTransition cs r))\<lparr>seed := sd\<rparr>)"
  by (simp add: sampleBimodalTransition_def random_reseed sampleTriangular_reseed Let_def
      split_beta)

lemma exploration_move_reseed:
  "exploration_move cs (r\<lparr>seed := sd\<rparr>) =
     (fst (exploration_move cs r), (snd (exploration_move cs r))\<lparr>seed := sd\<rparr>)"
  by (simp add: exploration_move_def random_reseed sampleTriangular_reseed Let_def split_beta)

lemma change_step_reseed:
  "change_step i t h cs ta (r\<lparr>seed := sd\<rparr>) =
     (fst (change_step i t h cs ta r), fst (snd (change_step i t h cs ta r)),
      fst (snd (snd (change_step i t h cs ta r))),
      (snd (snd (snd (change_step i t h cs ta r))))\<lparr>seed := sd\<rparr>)"
  by (simp add: change_step_def random_reseed sampleBimodalTransition_reseed
      exploration_move_reseed Let_def split_beta)

lemma body_reseed:
  "generateSequence_body c i p t (st\<lparr>ls_rng := (ls_rng st)\<lparr>seed := sd\<rparr>\<rparr>) =
     (generateSequence_body c i p t st)
       \<lparr>ls_rng := (ls_rng (generateSequence_body c i p t st))\<lparr>seed := sd\<rparr>\<rparr>"
  by (simp add: generateSequence_body_def change_step_reseed sampleTriangular_reseed Let_def
      split_beta)

lemma loop_reseed:
  "generateSequence_loop c n i p t (st\<lparr>ls_rng := (ls_rng st)\<lparr>seed := sd\<rparr>\<rparr>) =
     (generateSequence_loop c n i p t st)
       \<lparr>ls_rng := (ls_rng (generateSequence_loop c n i p t st))\<lparr>seed := sd\<rparr>\<rparr>"
proof (induction c n i p t st rule: generateSequence_loop.induct)
  case (1 cond nTrials isTutorial tutorialPhase t st)
  show ?case
  proof (cases "int t < nTrials")
    case True
    then show ?thesis using "1.IH" by (simp add: loop_step body_reseed)
  next
    case False
    then show ?thesis by (simp add: loop_stop)
  qed
qed

lemma generateSequence_reseed:
  "generateSequence c n i p (reseed k sd g) =
     (fst (generateSequence c n i p g), reseed k sd (snd (generateSequence c n i p g)))"
proof -
  let ?st = "\<lparr>ls_rng = snd (random (rng g)),
              ls_currentState = fst (random (rng g)) * STATE_RANGE,
              ls_tau = 0, ls_trials = []\<rparr>"
  have "generateSequence_loop c n i p 0
          \<lparr>ls_rng = (snd (random (rng g)))\<lparr>seed := sd\<rparr>,
           ls_currentState = fst (random (rng g)) * STATE_RANGE, ls_tau = 0, ls_trials = []\<rparr> =
        (generateSequence_loop c n i p 0 ?st)
          \<lparr>ls_rng := (ls_rng (generateSequence_loop c n i p 0 ?st))\<lparr>seed := sd\<rparr>\<rparr>"
    using loop_reseed [where st = "?st" and sd = sd and c = c and n = n and i = i and p = p and t = 0] by simp
  then show ?thesis
    by (simp add: generateSequence_def reseed_def random_reseed Let_def split_beta)
qed

lemma tutorial_loop_reseed:
  "tutorial_loop c ph acc (reseed k sd g) =
     (fst (tutorial_loop c ph acc g), reseed k sd (snd (tutorial_loop c ph acc g)))"
proof (induction c ph acc g rule: tutorial_loop.induct)
  case (1 cond phase tutorials g)
  show ?case
  proof (cases "phase \<le> 5")
    case True
    then show ?thesis
      using "1.IH" [OF True refl refl prod.collapse]
      by (simp add: tutorial_loop_step generateSequence_reseed)
  next
    case False
    then show ?thesis by (simp add: tutorial_loop_stop)
  qed
qed

lemma reseed_MAIN_TRIALS: "MAIN_TRIALS (reseed k sd g) = MAIN_TRIALS g"
  by (simp add: reseed_def)

lemma generateAllSequences_reseed:
  "fst (generateAllSequences (reseed k sd g)) = fst (generateAllSequences g)"
  by (simp add: generateAllSequences_def generateTutorialSequences_def generateMainSequence_def
      tutorial_loop_reseed generateSequence_reseed reseed_MAIN_TRIALS Let_def split_beta)

lemma same_stream_reseed:
  assumes "current (rng g1) = current (rng g2)" and "MAIN_TRIALS g1 = MAIN_TRIALS g2"
  shows "g2 = reseed (rngSeed g2) (seed (rng g2)) g1"
proof -
  have "rng g2 = (rng g1)\<lparr>seed := seed (rng g2)\<rparr>"
    using assms(1) by simp
  then show ?thesis using assms(2) by (simp add: reseed_def)
qed


section \<open>The claims\<close>

text \<open>
  Claim C4, as amended. Started from an integer seed in \<open>[0, 2^32)\<close> (the generator uses
  12345), every call of \<open>random\<close> replaces the state by
  \<open>(state * 1664525 + 1013904223) mod 2^32\<close> and returns the new state divided by \<open>2^32\<close>;
  the returned value lies in \<open>[0, 1)\<close>; the state stays in \<open>[0, 2^32)\<close>, so this holds for
  every state reachable from such a seed; and the stream is a function of the seed and the
  number of calls alone.
\<close>

theorem random_lcg_recurrence:
  assumes "0 \<le> sd" and "sd < 2 ^ 32"
  shows "current (random_calls (Suc n) (new_SeededRandom sd)) =
           (current (random_calls n (new_SeededRandom sd)) * 1664525 + 1013904223) mod 2 ^ 32
         \<and> random_value n (new_SeededRandom sd) =
             real_of_int (current (random_calls (Suc n) (new_SeededRandom sd))) / 2 ^ 32
         \<and> 0 \<le> random_value n (new_SeededRandom sd)
         \<and> random_value n (new_SeededRandom sd) < 1
         \<and> valid_stream (random_calls n (new_SeededRandom sd))"
proof -
  let ?r = "random_calls n (new_SeededRandom sd)"
  have "valid_stream (new_SeededRandom sd)"
    using assms by (simp add: valid_stream_def new_SeededRandom_def)
  then have v: "valid_stream ?r" by (rule random_calls_valid)
  then have nn: "0 \<le> current ?r" by (simp add: valid_stream_def)
  have a: "current (random_calls (Suc n) (new_SeededRandom sd)) =
             (current ?r * 1664525 + 1013904223) mod 2 ^ 32"
    unfolding random_calls_Suc using nn by (rule random_current)
  have b: "random_value n (new_SeededRandom sd) =
             real_of_int (current (random_calls (Suc n) (new_SeededRandom sd))) / 2 ^ 32"
    unfolding random_calls_Suc random_value_def by (rule random_fst)
  have c: "0 \<le> random_value n (new_SeededRandom sd)"
    unfolding random_value_def using nn by (rule random_unit_interval(1))
  have d: "random_value n (new_SeededRandom sd) < 1"
    unfolding random_value_def using nn by (rule random_unit_interval(2))
  from a b c d v show ?thesis by blast
qed

theorem random_lcg_recurrence_witness:
  "current (random_calls (Suc 0) (new_SeededRandom 12345)) = 87628868
   \<and> random_value 0 (new_SeededRandom 12345) = 87628868 / 2 ^ 32
   \<and> random_value 0 (new_SeededRandom 12345) < 1"
proof -
  have h: "(0::int) \<le> 12345" "(12345::int) < 2 ^ 32" by simp_all
  have e: "current (new_SeededRandom 12345) = 12345"
    by (simp add: new_SeededRandom_def)
  show ?thesis
    using random_lcg_recurrence [OF h, of 0] by (simp add: e)
qed

text \<open>
  Claim C4 as stated fails for a seed outside that range, which nothing rejects: the
  remainder operator keeps the sign of the dividend, so from the seed -1000 the first call
  leaves a negative state, which is not the residue modulo \<open>2^32\<close>, and returns a negative
  value.
\<close>

theorem random_negative_seed_counterexample:
  "current (snd (random (new_SeededRandom (- 1000)))) = - 650620777
   \<and> current (snd (random (new_SeededRandom (- 1000)))) \<noteq>
       (current (new_SeededRandom (- 1000)) * 1664525 + 1013904223) mod 2 ^ 32
   \<and> fst (random (new_SeededRandom (- 1000))) < 0"
  by (simp add: random_def new_SeededRandom_def js_rem_def Let_def)

text \<open>
  Claim C1, as amended. In every sequence produced by \<open>generateSequence\<close> the emitted
  \<open>tau\<close> is 0 exactly on the trials with \<open>change_flag\<close> set; on every other trial it is
  the previous trial's \<open>tau\<close> plus 1, and on a first trial without change it is 1: the
  counter starts at 0 before the first trial and is updated before the trial is emitted.
\<close>

theorem tau_monotonicity:
  "\<forall>k < length (fst (generateSequence c n i p g)).
     (change_flag (fst (generateSequence c n i p g) ! k)
        \<longleftrightarrow> tau_true (fst (generateSequence c n i p g) ! k) = 0)
     \<and> (\<not> change_flag (fst (generateSequence c n i p g) ! k) \<longrightarrow>
          tau_true (fst (generateSequence c n i p g) ! k) =
            (if k = 0 then 1 else tau_true (fst (generateSequence c n i p g) ! (k - 1)) + 1))"
proof (intro allI impI)
  fix k assume "k < length (fst (generateSequence c n i p g))"
  with generateSequence_tau_chain [of c n i p g]
  have "tau_step (if k = 0 then 0 else tau_true (fst (generateSequence c n i p g) ! (k - 1)))
          (fst (generateSequence c n i p g) ! k)"
    by (rule tau_chain_nth)
  then show "(change_flag (fst (generateSequence c n i p g) ! k)
        \<longleftrightarrow> tau_true (fst (generateSequence c n i p g) ! k) = 0)
     \<and> (\<not> change_flag (fst (generateSequence c n i p g) ! k) \<longrightarrow>
          tau_true (fst (generateSequence c n i p g) ! k) =
            (if k = 0 then 1 else tau_true (fst (generateSequence c n i p g) ! (k - 1)) + 1))"
    by (cases "k = 0") (simp_all add: tau_step_def)
qed

theorem tau_monotonicity_witness:
  "length (fst (generateSequence ''HD'' 2 False None (new_StimulusGenerator 5))) = 2
   \<and> \<not> change_flag (fst (generateSequence ''HD'' 2 False None (new_StimulusGenerator 5)) ! 0)
   \<and> tau_true (fst (generateSequence ''HD'' 2 False None (new_StimulusGenerator 5)) ! 0) = 1
   \<and> \<not> change_flag (fst (generateSequence ''HD'' 2 False None (new_StimulusGenerator 5)) ! 1)
   \<and> tau_true (fst (generateSequence ''HD'' 2 False None (new_StimulusGenerator 5)) ! 1) = 2"
proof -
  let ?ts = "fst (generateSequence ''HD'' 2 False None (new_StimulusGenerator 5))"
  define s0 where "s0 = \<lparr>ls_rng = \<lparr>seed = 12345, current = 87628868\<rparr>,
               ls_currentState = 87628868 / 2 ^ 32 * STATE_RANGE,
               ls_tau = 0, ls_trials = []\<rparr>"
  define s1 where "s1 = generateSequence_body ''HD'' False None 0 s0"
  define s2 where "s2 = generateSequence_body ''HD'' False None 1 s1"
  have f0: "ls_rng s0 = \<lparr>seed = 12345, current = 87628868\<rparr>" "ls_tau s0 = 0"
    "ls_trials s0 = []"
    by (simp_all add: s0_def)
  have l: "length ?ts = 2" by (simp add: generateSequence_length)
  have ts: "?ts = ls_trials s2"
    unfolding s2_def s1_def s0_def
    by (simp add: generateSequence_def new_StimulusGenerator_def new_SeededRandom_def
        stream_12345(1) loop_two Let_def)
  have n0: "\<not> fst (random (ls_rng s0)) <
             (if ''HD'' = ''HI'' then 0.1 else calculateHDHazard (real (ls_tau s0)))"
    using calculateHDHazard_0_small by (simp add: f0 stream_12345(2))
  have r1: "ls_rng s1 = \<lparr>seed = 12345, current = 2332836374\<rparr>"
    unfolding s1_def by (subst body_no_change(1) [OF n0]) (simp add: f0 stream_12345)
  have t1: "ls_tau s1 = 1"
    unfolding s1_def by (subst body_no_change(2) [OF n0]) (simp add: f0)
  have n1: "\<not> fst (random (ls_rng s1)) <
             (if ''HD'' = ''HI'' then 0.1 else calculateHDHazard (real (ls_tau s1)))"
    using calculateHDHazard_1_small by (simp add: r1 t1 stream_12345(4))
  have k0: "(0::nat) < length ?ts" and k1: "(1::nat) < length ?ts" using l by simp_all
  define a where "a = last (ls_trials s1)"
  define b where "b = last (ls_trials s2)"
  have "ls_trials s2 = (ls_trials s0 @ [a]) @ [b]"
    unfolding s2_def s1_def a_def b_def
    by (subst body_trials, subst body_trials [of _ _ _ 0]) simp
  then have "?ts = [a, b]"
    unfolding ts by (simp add: f0)
  then have e: "?ts ! 0 = last (ls_trials s1)" "?ts ! 1 = last (ls_trials s2)"
    by (simp_all add: a_def b_def)
  have c0: "\<not> change_flag (?ts ! 0)"
    unfolding e s1_def by (simp add: body_no_change(4) [OF n0])
  have c1: "\<not> change_flag (?ts ! 1)"
    unfolding e s2_def by (simp add: body_no_change(4) [OF n1])
  show ?thesis
    using l c0 c1
      tau_monotonicity [of "''HD''" 2 False None "new_StimulusGenerator 5", rule_format, OF k0]
      tau_monotonicity [of "''HD''" 2 False None "new_StimulusGenerator 5", rule_format, OF k1]
    by simp
qed

text \<open>
  Claim C1 as stated fails: the first trial does not always have \<open>tau = 0\<close>. The first
  trial of an HD sequence drawn from a new generator is not a change trial and is emitted
  with \<open>tau = 1\<close>.
\<close>

theorem tau_first_trial_counterexample:
  "length (fst (generateSequence ''HD'' 1 False None (new_StimulusGenerator 5))) = 1
   \<and> \<not> change_flag (fst (generateSequence ''HD'' 1 False None (new_StimulusGenerator 5)) ! 0)
   \<and> tau_true (fst (generateSequence ''HD'' 1 False None (new_StimulusGenerator 5)) ! 0) = 1"
proof -
  have h: "\<not> (71072467 / 2 ^ 32 < calculateHDHazard 0)"
    using calculateHDHazard_0_small by simp
  show ?thesis
    using h
    by (simp add: generateSequence_def new_StimulusGenerator_def first_draws loop_step loop_stop
        generateSequence_body_def change_step_def Let_def split_beta)
qed

text \<open>
  Claim C2. With the random stream in a state in \<open>[0, 2^32)\<close> (as after construction and
  after every draw), every trial of a sequence produced by \<open>generateSequence\<close>, for any
  condition, trial count, tutorial flag and phase, and every trial of every tutorial and
  main sequence of \<open>generateAllSequences\<close>, has state and observation in \<open>[0, 300]\<close>;
  \<open>sampleTriangular\<close> returns a value in \<open>[0, 300]\<close> for every centre, half-width and
  uniform draw.
\<close>

theorem range_invariant:
  assumes "valid_stream (rng g)"
  shows "(\<forall>tr \<in> set (fst (generateSequence c n i p g)).
            0 \<le> s_t tr \<and> s_t tr \<le> 300 \<and> 0 \<le> x_t tr \<and> x_t tr \<le> 300)
         \<and> (\<forall>ts \<in> set (all_sequences (fst (generateAllSequences g))). \<forall>tr \<in> set ts.
            0 \<le> s_t tr \<and> s_t tr \<le> 300 \<and> 0 \<le> x_t tr \<and> x_t tr \<le> 300)
         \<and> 0 \<le> fst (sampleTriangular center halfWidth (rng g))
         \<and> fst (sampleTriangular center halfWidth (rng g)) \<le> 300
         \<and> STATE_RANGE = 300"
proof -
  have a: "\<forall>tr \<in> set (fst (generateSequence c n i p g)). in_range tr"
    using assms by (rule generateSequence_in_range)
  have b: "seqs_in_range (all_sequences (fst (generateAllSequences g)))"
    using assms by (rule generateAllSequences_in_range)
  have c: "0 \<le> fst (sampleTriangular center halfWidth (rng g))
           \<and> fst (sampleTriangular center halfWidth (rng g)) \<le> STATE_RANGE"
    by (rule sampleTriangular_range)
  have d: "STATE_RANGE = 300" by (simp add: STATE_RANGE_def)
  from a b c show ?thesis
    unfolding seqs_in_range_def in_range_def d by simp
qed

theorem range_invariant_witness:
  "valid_stream (rng (new_StimulusGenerator 5))
   \<and> length (fst (generateSequence ''HI'' 1 True (Some 1) (new_StimulusGenerator 5))) = 1
   \<and> 0 \<le> s_t (fst (generateSequence ''HI'' 1 True (Some 1) (new_StimulusGenerator 5)) ! 0)
   \<and> s_t (fst (generateSequence ''HI'' 1 True (Some 1) (new_StimulusGenerator 5)) ! 0) \<le> 300
   \<and> 0 \<le> x_t (fst (generateSequence ''HI'' 1 True (Some 1) (new_StimulusGenerator 5)) ! 0)
   \<and> x_t (fst (generateSequence ''HI'' 1 True (Some 1) (new_StimulusGenerator 5)) ! 0) \<le> 300"
proof -
  let ?g = "new_StimulusGenerator 5"
  let ?ts = "fst (generateSequence ''HI'' 1 True (Some 1) ?g)"
  have v: "valid_stream (rng ?g)"
    by (simp add: new_StimulusGenerator_def new_SeededRandom_def valid_stream_def)
  have l: "length ?ts = 1" by (simp add: generateSequence_length)
  then have m: "?ts ! 0 \<in> set ?ts" by simp
  show ?thesis
    using v l m range_invariant [OF v, of "''HI''" 1 True "Some 1"] by blast
qed










text \<open>
  Claim C7, as amended. \<open>generateAllSequences\<close> performs twelve calls of
  \<open>generateSequence\<close> on the one random stream, each starting from the stream the
  previous call left: the HI tutorials of phases 1 to 5 with 10, 10, 15, 15 and 20 trials
  and \<open>isTutorial\<close> set, the HI main sequence with the configured trial count, no tutorial
  flag and no phase, then the same for HD. The twelve sequences have these lengths, and
  for a trial count of 5 the HI main sequence has length 5.
\<close>

theorem generateAllSequences_order:
  "generateAllSequences g =
     (let (a1, g1) = generateSequence ''HI'' 10 True (Some 1) g;
          (a2, g2) = generateSequence ''HI'' 10 True (Some 2) g1;
          (a3, g3) = generateSequence ''HI'' 15 True (Some 3) g2;
          (a4, g4) = generateSequence ''HI'' 15 True (Some 4) g3;
          (a5, g5) = generateSequence ''HI'' 20 True (Some 5) g4;
          (a6, g6) = generateSequence ''HI'' (MAIN_TRIALS g) False None g5;
          (b1, h1) = generateSequence ''HD'' 10 True (Some 1) g6;
          (b2, h2) = generateSequence ''HD'' 10 True (Some 2) h1;
          (b3, h3) = generateSequence ''HD'' 15 True (Some 3) h2;
          (b4, h4) = generateSequence ''HD'' 15 True (Some 4) h3;
          (b5, h5) = generateSequence ''HD'' 20 True (Some 5) h4;
          (b6, h6) = generateSequence ''HD'' (MAIN_TRIALS g) False None h5
      in (\<lparr>HI = \<lparr>tutorials = [a1, a2, a3, a4, a5], main = a6\<rparr>,
           HD = \<lparr>tutorials = [b1, b2, b3, b4, b5], main = b6\<rparr>\<rparr>, h6))
   \<and> map length (all_sequences (fst (generateAllSequences g))) =
       [10, 10, 15, 15, 20, nat (MAIN_TRIALS g), 10, 10, 15, 15, 20, nat (MAIN_TRIALS g)]
   \<and> length (all_sequences (fst (generateAllSequences g))) = 12
   \<and> length (main (HI (fst (generateAllSequences (new_StimulusGenerator 5))))) = 5"
proof -
  have a: "length (all_sequences (fst (generateAllSequences g))) = 12"
    using arg_cong [OF all_sequences_lengths [of g], of length] by simp
  have "length (main (HI (fst (generateAllSequences (new_StimulusGenerator 5))))) =
          nat (MAIN_TRIALS (new_StimulusGenerator 5))"
    by (simp add: generateAllSequences_def Let_def split_beta generateMainSequence_length
        generateTutorialSequences_MAIN_TRIALS)
  then have b: "length (main (HI (fst (generateAllSequences (new_StimulusGenerator 5))))) = 5"
    by (simp add: new_StimulusGenerator_def)
  from a b show ?thesis
    using generateAllSequences_chain [of g] all_sequences_lengths [of g] by blast
qed


text \<open>
  Claim C7 as stated fails in its count: the session holds twelve generated sequences, one
  for each call of \<open>generateSequence\<close>, not eight.
\<close>

theorem generation_calls_counterexample:
  "length (all_sequences (fst (generateAllSequences (new_StimulusGenerator 5)))) = 12
   \<and> length (all_sequences (fst (generateAllSequences (new_StimulusGenerator 5)))) \<noteq> 8"
  using arg_cong [OF all_sequences_lengths [of "new_StimulusGenerator 5"], of length]
  by simp

text \<open>
  Claim C8, as amended. \<open>generateSequence\<close> with a trial count of zero or below returns
  the empty sequence, having taken the one draw for the initial state from the stream;
  nothing validates the trial count, and a negative count is accepted like zero.
\<close>

theorem generateSequence_nonpositive_count:
  "nTrials \<le> 0 \<Longrightarrow>
     generateSequence c nTrials i p g = ([], g\<lparr>rng := snd (random (rng g))\<rparr>)"
  by (simp add: generateSequence_def Let_def split_beta loop_stop)

theorem generateSequence_nonpositive_count_witness:
  "generateSequence ''HI'' 0 False None (new_StimulusGenerator 0) =
     ([], \<lparr>MAIN_TRIALS = 0, rngSeed = 12345, rng = \<lparr>seed = 12345, current = 87628868\<rparr>\<rparr>)
   \<and> generateSequence ''HD'' (- 3) False None (new_StimulusGenerator (- 3)) =
     ([], \<lparr>MAIN_TRIALS = - 3, rngSeed = 12345, rng = \<lparr>seed = 12345, current = 87628868\<rparr>\<rparr>)"
proof -
  have h: "(0::int) \<le> 0" "(- 3::int) \<le> 0" by simp_all
  show ?thesis
    using generateSequence_nonpositive_count [OF h(1), of "''HI''" False None "new_StimulusGenerator 0"]
      generateSequence_nonpositive_count [OF h(2), of "''HD''" False None "new_StimulusGenerator (- 3)"]
    by (simp add: new_StimulusGenerator_def new_SeededRandom_def stream_12345(1))
qed


text \<open>
  Claim C8 as stated fails: a negative trial count is not rejected. The constructor stores
  it, and generation returns the empty main sequence exactly as for the count zero.
\<close>

theorem negative_count_accepted_counterexample:
  "MAIN_TRIALS (new_StimulusGenerator (- 1)) = - 1
   \<and> fst (generateMainSequence ''HI'' (new_StimulusGenerator (- 1))) = []
   \<and> generateSequence ''HI'' (- 1) False None (new_StimulusGenerator (- 1)) =
       generateSequence ''HI'' 0 False None (new_StimulusGenerator (- 1))
   \<and> main (HI (fst (generateAllSequences (new_StimulusGenerator (- 1))))) = []"
proof -
  have "length (main (HI (fst (generateAllSequences (new_StimulusGenerator (- 1)))))) = 0"
    by (simp add: generateAllSequences_unfold Let_def split_beta generateSequence_length
      generateSequence_MAIN_TRIALS new_StimulusGenerator_def)
  then show ?thesis
    by (simp add: generateMainSequence_def generateSequence_def Let_def split_beta loop_stop
      new_StimulusGenerator_def)
qed

text \<open>
  Claim C9. In one iteration of the generation loop, for trial index \<open>t\<close>: without a change
  the state stays as it was; on a change with neither \<open>isTutorial\<close> nor
  \<open>t > 0 \<and> t mod 50 = 0\<close> the new state is the bimodal transition, drawn right after the
  hazard draw; on a change under that condition with the further draw at or above 0.3 the
  new state is the bimodal transition, drawn after that further draw; the exploration move
  is taken only on a change, under that condition, with the further draw below 0.3.
\<close>

theorem exploration_override_gate:
  "(let hazard = (if c = ''HI'' then 0.1 else calculateHDHazard (real (ls_tau st)));
        u = fst (random (ls_rng st));
        r1 = snd (random (ls_rng st));
        gate = (isTutorial \<or> (t > 0 \<and> t mod 50 = 0));
        e = fst (random r1);
        r2 = snd (random r1);
        cs = ls_currentState st;
        st' = generateSequence_body c isTutorial p t st;
        lw = likelihood_width (last (ls_trials st'))
    in (\<not> u < hazard \<longrightarrow>
            ls_currentState st' = cs
            \<and> \<not> change_flag (last (ls_trials st'))
            \<and> ls_rng st' = snd (sampleTriangular cs lw r1))
       \<and> (u < hazard \<and> \<not> gate \<longrightarrow>
            ls_currentState st' = fst (sampleBimodalTransition cs r1)
            \<and> change_flag (last (ls_trials st'))
            \<and> ls_rng st' = snd (sampleTriangular (ls_currentState st') lw
                               (snd (sampleBimodalTransition cs r1))))
       \<and> (u < hazard \<and> gate \<and> \<not> e < 0.3 \<longrightarrow>
            ls_currentState st' = fst (sampleBimodalTransition cs r2)
            \<and> change_flag (last (ls_trials st'))
            \<and> ls_rng st' = snd (sampleTriangular (ls_currentState st') lw
                               (snd (sampleBimodalTransition cs r2))))
       \<and> (u < hazard \<and> gate \<and> e < 0.3 \<longrightarrow>
            ls_currentState st' = fst (exploration_move cs r2)
            \<and> change_flag (last (ls_trials st'))
            \<and> ls_rng st' = snd (sampleTriangular (ls_currentState st') lw
                               (snd (exploration_move cs r2))))
       \<and> s_t (last (ls_trials st')) = ls_currentState st'
       \<and> trial_idx (last (ls_trials st')) = t
       \<and> is_tutorial (last (ls_trials st')) = isTutorial)"
  by (simp add: generateSequence_body_def change_step_def Let_def split_beta)


theorem exploration_override_gate_witness:
  "ls_currentState (generateSequence_body ''HD'' False None 0
      \<lparr>ls_rng = \<lparr>seed = 12345, current = 87628868\<rparr>, ls_currentState = 150,
       ls_tau = 0, ls_trials = []\<rparr>) = 150
   \<and> ls_currentState (generateSequence_body ''HI'' False None 0
      \<lparr>ls_rng = \<lparr>seed = 12345, current = 87628868\<rparr>, ls_currentState = 150,
       ls_tau = 0, ls_trials = []\<rparr>) =
     fst (sampleBimodalTransition 150 \<lparr>seed = 12345, current = 71072467\<rparr>)
   \<and> ls_currentState (generateSequence_body ''HI'' True (Some 1) 0
      \<lparr>ls_rng = \<lparr>seed = 12345, current = 87628868\<rparr>, ls_currentState = 150,
       ls_tau = 0, ls_trials = []\<rparr>) =
     fst (sampleBimodalTransition 150 \<lparr>seed = 12345, current = 2332836374\<rparr>)
   \<and> ls_currentState (generateSequence_body ''HI'' True (Some 1) 0
      \<lparr>ls_rng = \<lparr>seed = 12345, current = 12345\<rparr>, ls_currentState = 150,
       ls_tau = 0, ls_trials = []\<rparr>) =
     fst (exploration_move 150 \<lparr>seed = 12345, current = 71072467\<rparr>)"
proof -
  let ?a = "\<lparr>ls_rng = \<lparr>seed = 12345, current = 87628868\<rparr>, ls_currentState = 150,
       ls_tau = 0, ls_trials = []\<rparr>"
  let ?b = "\<lparr>ls_rng = \<lparr>seed = 12345, current = 12345\<rparr>, ls_currentState = 150,
       ls_tau = 0, ls_trials = []\<rparr>"
  have h: "\<not> (71072467 / 2 ^ 32 < calculateHDHazard 0)"
    using calculateHDHazard_0_small by simp
  have 1: "ls_currentState (generateSequence_body ''HD'' False None 0 ?a) = 150"
    using exploration_override_gate [of "''HD''" ?a False 0 None] h
    by (simp add: Let_def stream_12345)
  have 2: "ls_currentState (generateSequence_body ''HI'' False None 0 ?a) =
             fst (sampleBimodalTransition 150 \<lparr>seed = 12345, current = 71072467\<rparr>)"
    using exploration_override_gate [of "''HI''" ?a False 0 None]
    by (simp add: Let_def stream_12345)
  have 3: "ls_currentState (generateSequence_body ''HI'' True (Some 1) 0 ?a) =
             fst (sampleBimodalTransition 150 \<lparr>seed = 12345, current = 2332836374\<rparr>)"
    using exploration_override_gate [of "''HI''" ?a True 0 "Some 1"]
    by (simp add: Let_def stream_12345)
  have 4: "ls_currentState (generateSequence_body ''HI'' True (Some 1) 0 ?b) =
             fst (exploration_move 150 \<lparr>seed = 12345, current = 71072467\<rparr>)"
    using exploration_override_gate [of "''HI''" ?b True 0 "Some 1"]
    by (simp add: Let_def stream_12345)
  from 1 2 3 4 show ?thesis by blast
qed

text \<open>
  Claim C10. When the main sequence of a condition is empty, \<open>analyzeStateCoverage\<close>
  returns a report for that condition whose minimum is \<open>Infinity\<close>, whose maximum is
  \<open>-Infinity\<close> and whose mean is \<open>NaN\<close>, for the states and for the observations; no
  operation of the analysis raises. When the main sequence is not empty, minimum, maximum
  and mean are finite.
\<close>

theorem analyzeStateCoverage_empty_main:
  "(main (HI s) = [] \<longrightarrow>
      min_val (stateRange (HI (analyzeStateCoverage s))) = PosInfinity
      \<and> max_val (stateRange (HI (analyzeStateCoverage s))) = NegInfinity
      \<and> mean (stateRange (HI (analyzeStateCoverage s))) = NaN
      \<and> min_val (observationRange (HI (analyzeStateCoverage s))) = PosInfinity
      \<and> max_val (observationRange (HI (analyzeStateCoverage s))) = NegInfinity
      \<and> mean (observationRange (HI (analyzeStateCoverage s))) = NaN)
   \<and> (main (HD s) = [] \<longrightarrow>
      min_val (stateRange (HD (analyzeStateCoverage s))) = PosInfinity
      \<and> max_val (stateRange (HD (analyzeStateCoverage s))) = NegInfinity
      \<and> mean (stateRange (HD (analyzeStateCoverage s))) = NaN
      \<and> min_val (observationRange (HD (analyzeStateCoverage s))) = PosInfinity
      \<and> max_val (observationRange (HD (analyzeStateCoverage s))) = NegInfinity
      \<and> mean (observationRange (HD (analyzeStateCoverage s))) = NaN)
   \<and> (main (HI s) \<noteq> [] \<longrightarrow>
      finite_stats (stateRange (HI (analyzeStateCoverage s)))
      \<and> finite_stats (observationRange (HI (analyzeStateCoverage s))))
   \<and> (main (HD s) \<noteq> [] \<longrightarrow>
      finite_stats (stateRange (HD (analyzeStateCoverage s)))
      \<and> finite_stats (observationRange (HD (analyzeStateCoverage s))))"
  using analyze_condition_empty analyze_condition_nonempty
  by (simp add: analyzeStateCoverage_def degenerate_def)



theorem analyzeStateCoverage_empty_main_witness:
  "main (HI (fst (generateAllSequences (new_StimulusGenerator 0)))) = []
   \<and> min_val (stateRange (HI (analyzeStateCoverage
         (fst (generateAllSequences (new_StimulusGenerator 0)))))) = PosInfinity
   \<and> max_val (stateRange (HI (analyzeStateCoverage
         (fst (generateAllSequences (new_StimulusGenerator 0)))))) = NegInfinity
   \<and> mean (stateRange (HI (analyzeStateCoverage
         (fst (generateAllSequences (new_StimulusGenerator 0)))))) = NaN
   \<and> main (HD (fst (generateAllSequences (new_StimulusGenerator 0)))) = []
   \<and> mean (observationRange (HD (analyzeStateCoverage
         (fst (generateAllSequences (new_StimulusGenerator 0)))))) = NaN
   \<and> main (HI (fst (generateAllSequences (new_StimulusGenerator 5)))) \<noteq> []
   \<and> finite_stats (stateRange (HI (analyzeStateCoverage
         (fst (generateAllSequences (new_StimulusGenerator 5))))))
   \<and> main (HD (fst (generateAllSequences (new_StimulusGenerator 5)))) \<noteq> []
   \<and> finite_stats (observationRange (HD (analyzeStateCoverage
         (fst (generateAllSequences (new_StimulusGenerator 5))))))"
proof -
  let ?s0 = "fst (generateAllSequences (new_StimulusGenerator 0))"
  let ?s5 = "fst (generateAllSequences (new_StimulusGenerator 5))"
  have "length (main (HI ?s0)) = 0" "length (main (HD ?s0)) = 0"
    by (simp_all add: main_lengths new_StimulusGenerator_def)
  then have e: "main (HI ?s0) = []" "main (HD ?s0) = []" by simp_all
  have "length (main (HI ?s5)) = 5" "length (main (HD ?s5)) = 5"
    by (simp_all add: main_lengths new_StimulusGenerator_def)
  then have n: "main (HI ?s5) \<noteq> []" "main (HD ?s5) \<noteq> []" by auto
  show ?thesis
    using e n analyzeStateCoverage_empty_main [of ?s0] analyzeStateCoverage_empty_main [of ?s5]
    by simp
qed

text \<open>
  Claim C3. Two generators whose random streams are in the same state and which have the
  same trial count, as two generators constructed with the same trial count are, produce
  the same session: every tutorial sequence and the main sequence of either condition
  agree in every trial, so in state, observation, change flag and \<open>tau\<close>. Nothing else of
  the generator enters the result.
\<close>

theorem generateAllSequences_deterministic:
  assumes "current (rng g1) = current (rng g2)" and "MAIN_TRIALS g1 = MAIN_TRIALS g2"
  shows "fst (generateAllSequences g1) = fst (generateAllSequences g2)"
  using generateAllSequences_reseed [of "rngSeed g2" "seed (rng g2)" g1]
    same_stream_reseed [OF assms] by simp


theorem generateAllSequences_deterministic_witness:
  "current (rng ((new_StimulusGenerator 5)\<lparr>rng := setSeed 87628868 (new_SeededRandom 1)\<rparr>)) =
     current (rng ((new_StimulusGenerator 5)\<lparr>rng := snd (random (new_SeededRandom 12345))\<rparr>))
   \<and> MAIN_TRIALS ((new_StimulusGenerator 5)\<lparr>rng := setSeed 87628868 (new_SeededRandom 1)\<rparr>) =
       MAIN_TRIALS ((new_StimulusGenerator 5)\<lparr>rng := snd (random (new_SeededRandom 12345))\<rparr>)
   \<and> (new_StimulusGenerator 5)\<lparr>rng := setSeed 87628868 (new_SeededRandom 1)\<rparr> \<noteq>
       (new_StimulusGenerator 5)\<lparr>rng := snd (random (new_SeededRandom 12345))\<rparr>
   \<and> fst (generateAllSequences
         ((new_StimulusGenerator 5)\<lparr>rng := setSeed 87628868 (new_SeededRandom 1)\<rparr>)) =
       fst (generateAllSequences
         ((new_StimulusGenerator 5)\<lparr>rng := snd (random (new_SeededRandom 12345))\<rparr>))"
proof -
  let ?g1 = "(new_StimulusGenerator 5)\<lparr>rng := setSeed 87628868 (new_SeededRandom 1)\<rparr>"
  let ?g2 = "(new_StimulusGenerator 5)\<lparr>rng := snd (random (new_SeededRandom 12345))\<rparr>"
  have a: "current (rng ?g1) = current (rng ?g2)"
    by (simp add: setSeed_def new_SeededRandom_def stream_12345(1))
  have b: "MAIN_TRIALS ?g1 = MAIN_TRIALS ?g2"
    by simp
  have "seed (rng ?g1) \<noteq> seed (rng ?g2)"
    by (simp add: setSeed_def new_SeededRandom_def stream_12345(1))
  then have c: "?g1 \<noteq> ?g2" by metis
  from a b c generateAllSequences_deterministic [OF a b] show ?thesis by blast
qed

end
